theory Spec2Isabelle
  imports Complex_Main "HOL-Library.Word" "HOL-Library.Monad_Syntax"
begin

section \<open>Numbers of the host language\<close>

text \<open>
  The component computes with the host's \<open>number\<close> type (IEEE doubles). The model keeps
  the special values apart: \<open>Fin r\<close> is a finite number, read as the real \<open>r\<close>. There is
  one zero (the sign of a zero is only visible through a division, and the one division by a
  computed value in the component divides by an absolute value). The operations \<open>js_add\<close>,
  \<open>js_sub\<close>, \<open>js_mul\<close> and \<open>js_div\<close> compute exactly on finite numbers, without the
  rounding of the host: they give a gain, a Q, a volume and the difference of two
  positions. The loop of the visualization compares a sum it accumulates with the
  configured frequencies, and there rounding decides which bands get a value: its
  operations are \<open>dbl_add\<close> and \<open>dbl_div\<close> below, which round as the host does.
\<close>

datatype number = Fin real | PosInf | NegInf | NaN

fun js_neg :: "number \<Rightarrow> number" where
  "js_neg (Fin a) = Fin (- a)"
| "js_neg PosInf = NegInf"
| "js_neg NegInf = PosInf"
| "js_neg NaN = NaN"

fun js_add :: "number \<Rightarrow> number \<Rightarrow> number" where
  "js_add (Fin a) (Fin b) = Fin (a + b)"
| "js_add NaN _ = NaN"
| "js_add _ NaN = NaN"
| "js_add PosInf NegInf = NaN"
| "js_add NegInf PosInf = NaN"
| "js_add PosInf _ = PosInf"
| "js_add _ PosInf = PosInf"
| "js_add NegInf _ = NegInf"
| "js_add _ NegInf = NegInf"

definition js_sub :: "number \<Rightarrow> number \<Rightarrow> number" where
  "js_sub a b = js_add a (js_neg b)"

text \<open>The sign of a number that is neither zero nor NaN, as the infinity of that sign.\<close>

definition signed_inf :: "bool \<Rightarrow> number" where
  "signed_inf negative = (if negative then NegInf else PosInf)"

fun js_mul :: "number \<Rightarrow> number \<Rightarrow> number" where
  "js_mul (Fin a) (Fin b) = Fin (a * b)"
| "js_mul NaN _ = NaN"
| "js_mul _ NaN = NaN"
| "js_mul (Fin a) PosInf = (if a = 0 then NaN else signed_inf (a < 0))"
| "js_mul (Fin a) NegInf = (if a = 0 then NaN else signed_inf (0 < a))"
| "js_mul PosInf (Fin b) = (if b = 0 then NaN else signed_inf (b < 0))"
| "js_mul NegInf (Fin b) = (if b = 0 then NaN else signed_inf (0 < b))"
| "js_mul PosInf PosInf = PosInf"
| "js_mul PosInf NegInf = NegInf"
| "js_mul NegInf PosInf = NegInf"
| "js_mul NegInf NegInf = PosInf"

text \<open>
  Division: a finite non-zero number over zero is an infinity, zero over zero and infinity
  over infinity are NaN, a finite number over an infinity is zero.
\<close>

fun js_div :: "number \<Rightarrow> number \<Rightarrow> number" where
  "js_div (Fin a) (Fin b) =
     (if b = 0 then (if a = 0 then NaN else signed_inf (a < 0)) else Fin (a / b))"
| "js_div NaN _ = NaN"
| "js_div _ NaN = NaN"
| "js_div (Fin a) PosInf = Fin 0"
| "js_div (Fin a) NegInf = Fin 0"
| "js_div PosInf (Fin b) = signed_inf (b < 0)"
| "js_div NegInf (Fin b) = signed_inf (0 \<le> b)"
| "js_div PosInf PosInf = NaN"
| "js_div PosInf NegInf = NaN"
| "js_div NegInf PosInf = NaN"
| "js_div NegInf NegInf = NaN"

text \<open>\<open>Math.abs\<close>.\<close>

fun Math_abs :: "number \<Rightarrow> number" where
  "Math_abs (Fin a) = Fin \<bar>a\<bar>"
| "Math_abs PosInf = PosInf"
| "Math_abs NegInf = PosInf"
| "Math_abs NaN = NaN"

text \<open>\<open>Math.round\<close>: the nearest integer, a half rounded up.\<close>

fun Math_round :: "number \<Rightarrow> number" where
  "Math_round (Fin a) = Fin (of_int \<lfloor>a + 1 / 2\<rfloor>)"
| "Math_round PosInf = PosInf"
| "Math_round NegInf = NegInf"
| "Math_round NaN = NaN"

text \<open>The comparisons \<open><\<close>, \<open>>\<close> and \<open><=\<close>: every comparison with NaN is false.\<close>

fun js_lt :: "number \<Rightarrow> number \<Rightarrow> bool" where
  "js_lt (Fin a) (Fin b) = (a < b)"
| "js_lt NaN _ = False"
| "js_lt _ NaN = False"
| "js_lt _ NegInf = False"
| "js_lt PosInf _ = False"
| "js_lt NegInf _ = True"
| "js_lt _ PosInf = True"

definition js_gt :: "number \<Rightarrow> number \<Rightarrow> bool" where
  "js_gt a b = js_lt b a"

definition js_le :: "number \<Rightarrow> number \<Rightarrow> bool" where
  "js_le a b = (a \<noteq> NaN \<and> b \<noteq> NaN \<and> (js_lt a b \<or> a = b))"

text \<open>Truthiness of a number in a condition: zero and NaN are falsy.\<close>

definition truthy :: "number \<Rightarrow> bool" where
  "truthy x = (x \<noteq> NaN \<and> x \<noteq> Fin 0)"

text \<open>
  An optional number is \<open>number | undefined\<close>. \<open>undefined\<close> in arithmetic or in a comparison
  is NaN; \<open>a !== b\<close> on two optional numbers is \<open>\<not> strict_eq a b\<close> (NaN differs from itself
  and a number differs from \<open>undefined\<close>).
\<close>

definition to_number :: "number option \<Rightarrow> number" where
  "to_number v = (case v of None \<Rightarrow> NaN | Some x \<Rightarrow> x)"

definition strict_eq :: "number option \<Rightarrow> number option \<Rightarrow> bool" where
  "strict_eq a b =
     (case a of
        None \<Rightarrow> b = None
      | Some x \<Rightarrow> (case b of None \<Rightarrow> False | Some y \<Rightarrow> x = y \<and> x \<noteq> NaN))"

text \<open>
  Reading an array at an index: \<open>undefined\<close> outside the array. The index of a typed
  array is a number; only a non-negative integer inside the array reads an element.
\<close>

definition js_index :: "'a list \<Rightarrow> int \<Rightarrow> 'a option" where
  "js_index xs i = (if 0 \<le> i \<and> i < int (length xs) then Some (xs ! nat i) else None)"

type_synonym sample = "8 word option"

definition typed_array_get :: "8 word list \<Rightarrow> number \<Rightarrow> sample" where
  "typed_array_get data n =
     (case n of
        Fin r \<Rightarrow> (if r = of_int \<lfloor>r\<rfloor> then js_index data \<lfloor>r\<rfloor> else None)
      | _ \<Rightarrow> None)"

section \<open>Double precision\<close>

text \<open>
  A finite double is \<open>m * 2 ^ e\<close> with an integer \<open>m\<close> of at most 53 bits and
  \<open>- 1074 \<le> e\<close>. \<open>fl x\<close> is the double nearest to the real \<open>x\<close>, a tie going to the
  even \<open>m\<close>: with \<open>2 ^ e \<le> |x| < 2 ^ (e + 1)\<close> the spacing of the doubles around \<open>x\<close> is
  \<open>2 ^ (e - 52)\<close>, and \<open>2 ^ (- 1074)\<close> below \<open>2 ^ (- 1022)\<close>; a result of \<open>2 ^ 1024\<close> or
  more is an infinity. An operation of the host on finite doubles is the exact operation
  followed by \<open>fl\<close>.
\<close>

fun log2_floor :: "nat \<Rightarrow> nat" where
  "log2_floor n = (if n < 2 then 0 else Suc (log2_floor (n div 2)))"

declare log2_floor.simps [simp del]

definition pow2 :: "int \<Rightarrow> real" where
  "pow2 e = (if 0 \<le> e then 2 ^ nat e else 1 / 2 ^ nat (- e))"

definition exponent :: "real \<Rightarrow> int" where
  "exponent x =
     (if 1 \<le> \<bar>x\<bar> then int (log2_floor (nat \<lfloor>\<bar>x\<bar>\<rfloor>))
      else - int (Suc (log2_floor (nat (\<lceil>1 / \<bar>x\<bar>\<rceil> - 1)))))"

definition round_half_even :: "real \<Rightarrow> int" where
  "round_half_even y =
     (let n = \<lfloor>y\<rfloor>; d = y - of_int n
      in if d < 1 / 2 then n else if 1 / 2 < d then n + 1 else if even n then n else n + 1)"

definition fl :: "real \<Rightarrow> number" where
  "fl x =
     (if x = 0 then Fin 0
      else (let u = pow2 (max (exponent x) (- 1022) - 52);
                r = of_int (round_half_even (x / u)) * u
            in if pow2 1024 \<le> \<bar>r\<bar> then signed_inf (r < 0) else Fin r))"

definition dbl_add :: "number \<Rightarrow> number \<Rightarrow> number" where
  "dbl_add a b = (case js_add a b of Fin r \<Rightarrow> fl r | v \<Rightarrow> v)"

definition dbl_div :: "number \<Rightarrow> number \<Rightarrow> number" where
  "dbl_div a b = (case js_div a b of Fin r \<Rightarrow> fl r | v \<Rightarrow> v)"

section \<open>Properties, nodes and the component's state\<close>

text \<open>
  \<open>ISoundProps\<close>. An optional property is an option; of a callback only its presence is
  kept. The equalizer is the object's entries in the order \<open>Object.keys\<close>,
  \<open>Object.values\<close> and \<open>Object.entries\<close> enumerate them.
\<close>

type_synonym equalizer = "(string \<times> number) list"

record props =
  url :: string
  playStatus :: "string option"
  position :: "number option"
  volume :: "number option"
  onVisualizationChange :: bool
  equalizer :: "equalizer option"
  preAmp :: "number option"
  stereoPan :: "number option"

datatype filter_type = lowpass | lowshelf | highshelf | peaking

text \<open>A \<open>BiquadFilterNode\<close>: its type and the values of its three parameters.\<close>

record biquad =
  type :: filter_type
  frequency :: number
  gain :: number
  Q :: number

text \<open>The audio context gives fresh filter nodes, with the host's default parameters.\<close>

record audioContext =
  createBiquadFilter :: biquad

datatype node = SourceNode | GainNode | FilterNode nat | AnalyserNode | StereoPannerNode | Destination

text \<open>
  What the component does to its collaborators (the audio element, the nodes of the graph,
  the animation frames and the visualization callback), in the order it does it.
\<close>

datatype effect =
    Connect node node
  | SetGainValue number
  | SetCurrentTime number
  | AudioPlay
  | AudioPause
  | SetPanValue number
  | SetFilterGain nat number
  | RequestAnimationFrame
  | CancelAnimationFrame "nat option"
  | GetByteFrequencyData
  | VisualizationChange "sample list"

record sound =
  filters :: "biquad list"
  qValues :: "number option list"
  animationFrame :: "nat option"
  effects :: "effect list"

text \<open>The instance as the constructor leaves it: \<open>filters = []\<close>, nothing else assigned.\<close>

definition new_sound :: sound where
  "new_sound = \<lparr>filters = [], qValues = [], animationFrame = None, effects = []\<rparr>"

definition emit :: "effect list \<Rightarrow> sound \<Rightarrow> sound" where
  "emit es s = s\<lparr>effects := effects s @ es\<rparr>"

section \<open>Building the filter chain\<close>

text \<open>
  The callback of the \<open>map\<close> over \<open>Object.keys(equalizer)\<close> that gives \<open>qValues\<close>
  (\<open>None\<close> is \<open>null\<close>). \<open>toNumber\<close> is the host's \<open>Number\<close> on strings.
\<close>

definition qValue :: "(string \<Rightarrow> number) \<Rightarrow> string \<Rightarrow> nat \<Rightarrow> string list \<Rightarrow> number option" where
  "qValue toNumber freq i arr =
     (if i = 0 \<or> int i = int (length arr) - 1 then None
      else Some (js_div (js_mul (Fin 2) (toNumber freq))
                  (Math_abs (js_sub (toNumber (arr ! (i + 1))) (toNumber (arr ! (i - 1)))))))"

text \<open>\<open>equalizer[freq]\<close>: the value stored under a key, \<open>undefined\<close> without one.\<close>

definition prop_get :: "equalizer \<Rightarrow> string \<Rightarrow> number option" where
  "prop_get eq k = map_of eq k"

text \<open>\<open>this.qValues[i] as number\<close>, assigned to a parameter: \<open>null\<close> is 0, \<open>undefined\<close> NaN.\<close>

definition qValue_at :: "number option list \<Rightarrow> nat \<Rightarrow> number" where
  "qValue_at qs i =
     (case js_index qs (int i) of None \<Rightarrow> NaN | Some None \<Rightarrow> Fin 0 | Some (Some q) \<Rightarrow> q)"

text \<open>
  The callback of the \<open>forEach\<close>: the filter it configures, then the connection to the
  last node of the chain and the push onto \<open>this.filters\<close>. The new node is named by the
  index it gets in \<open>this.filters\<close>. \<open>lastInChain\<close> starts as the gain node, so its guard
  \<open>if (lastInChain)\<close> always holds.
\<close>

definition configure :: "audioContext \<Rightarrow> (string \<Rightarrow> number) \<Rightarrow> equalizer \<Rightarrow> number \<Rightarrow>
    number option list \<Rightarrow> string \<Rightarrow> nat \<Rightarrow> string list \<Rightarrow> biquad" where
  "configure ctx toNumber eq pre qs freq i arr =
     (let b0 = createBiquadFilter ctx;
          b1 = b0\<lparr>type := peaking\<rparr>;
          b2 = b1\<lparr>frequency := toNumber freq\<rparr>;
          b3 = b2\<lparr>gain := js_add (to_number (prop_get eq freq)) pre\<rparr>
      in if i = 0 \<or> int i = int (length arr) - 1
         then b3\<lparr>type := (if i \<noteq> 0 then highshelf else lowshelf)\<rparr>
         else b3\<lparr>Q := qValue_at qs i\<rparr>)"

definition add_filter :: "audioContext \<Rightarrow> (string \<Rightarrow> number) \<Rightarrow> equalizer \<Rightarrow> number \<Rightarrow>
    string list \<Rightarrow> node \<times> sound \<Rightarrow> nat \<Rightarrow> node \<times> sound" where
  "add_filter ctx toNumber eq pre arr acc i =
     (let lastInChain = fst acc;
          s = snd acc;
          biquadFilter = configure ctx toNumber eq pre (qValues s) (arr ! i) i arr;
          n = FilterNode (length (filters s))
      in (n, s\<lparr>filters := filters s @ [biquadFilter],
               effects := effects s @ [Connect lastInChain n]\<rparr>))"

definition default_number :: "number \<Rightarrow> number option \<Rightarrow> number" where
  "default_number d v = (case v of None \<Rightarrow> d | Some x \<Rightarrow> x)"

definition createFilterNodes :: "audioContext \<Rightarrow> (string \<Rightarrow> number) \<Rightarrow> props \<Rightarrow> sound \<Rightarrow> node \<times> sound" where
  "createFilterNodes ctx toNumber p s =
     (case equalizer p of
        None \<Rightarrow> (GainNode, s)
      | Some eq \<Rightarrow>
          (let arr = map fst eq;
               pre = default_number (Fin 0) (preAmp p);
               s1 = s\<lparr>qValues := map (\<lambda>i. qValue toNumber (arr ! i) i arr) [0..<length arr]\<rparr>
           in foldl (add_filter ctx toNumber eq pre arr) (GainNode, s1) [0..<length arr]))"

section \<open>Aggregating the spectrum\<close>

text \<open>The literal \<open>23.4\<close> is the double nearest to it.\<close>

definition HERTZ_ITER :: number where
  "HERTZ_ITER = fl 23.4"

text \<open>
  The \<open>for\<close> loop of \<open>formatDataVizByFrequency\<close>, from the value \<open>i\<close> of its counter, with
  the cursor \<open>currentIndex\<close> and the \<open>values\<close> pushed so far. \<open>None\<close>: the loop does not
  end.
\<close>

partial_function (option) viz_loop ::
    "number list \<Rightarrow> 8 word list \<Rightarrow> number \<Rightarrow> nat \<Rightarrow> sample list \<Rightarrow> sample list option" where
  "viz_loop frequencies data i currentIndex values =
     (if js_le i (dbl_add (to_number (js_index frequencies (int (length frequencies) - 1))) HERTZ_ITER)
      then (if js_gt i (to_number (js_index frequencies (int currentIndex))) \<and>
               js_lt i (dbl_add (to_number (js_index frequencies (int currentIndex))) HERTZ_ITER)
            then viz_loop frequencies data (dbl_add i HERTZ_ITER) (currentIndex + 1)
                   (values @ [typed_array_get data (Math_round (dbl_div i HERTZ_ITER))])
            else viz_loop frequencies data (dbl_add i HERTZ_ITER) currentIndex values)
      else Some values)"

definition formatDataVizByFrequency ::
    "(string \<Rightarrow> number) \<Rightarrow> props \<Rightarrow> 8 word list \<Rightarrow> sample list option" where
  "formatDataVizByFrequency toNumber p data =
     (case equalizer p of
        None \<Rightarrow> Some []
      | Some eq \<Rightarrow> viz_loop (map toNumber (map fst eq)) data (Fin 0) 0 [])"

text \<open>
  One sampling tick. \<open>frame\<close> is the handle \<open>requestAnimationFrame\<close> returns and \<open>bins\<close>
  what \<open>getByteFrequencyData\<close> writes into \<open>frequencyData\<close>.
\<close>

definition handleVisualizationChange ::
    "(string \<Rightarrow> number) \<Rightarrow> nat \<Rightarrow> 8 word list \<Rightarrow> props \<Rightarrow> sound \<Rightarrow> sound option" where
  "handleVisualizationChange toNumber frame bins p s =
     (let s1 = emit [RequestAnimationFrame, GetByteFrequencyData] (s\<lparr>animationFrame := Some frame\<rparr>)
      in if onVisualizationChange p
         then map_option (\<lambda>values. emit [VisualizationChange values] s1)
                (formatDataVizByFrequency toNumber p bins)
         else Some s1)"

section \<open>Transport, volume and pan\<close>

text \<open>
  \<open>play\<close> calls the audio element; what follows the promise is \<open>play_resolved\<close>, run by the
  host once playback has started.
\<close>

definition play :: "sound \<Rightarrow> sound" where
  "play s = emit [AudioPlay] s"

definition play_resolved ::
    "(string \<Rightarrow> number) \<Rightarrow> nat \<Rightarrow> 8 word list \<Rightarrow> props \<Rightarrow> sound \<Rightarrow> sound option" where
  "play_resolved toNumber frame bins p s =
     (if onVisualizationChange p \<and> equalizer p \<noteq> None
      then handleVisualizationChange toNumber frame bins p s
      else Some s)"

text \<open>A frame handle in a condition: \<open>undefined\<close> and 0 are falsy.\<close>

definition frame_truthy :: "nat option \<Rightarrow> bool" where
  "frame_truthy f = (case f of None \<Rightarrow> False | Some n \<Rightarrow> n \<noteq> 0)"

definition pause :: "sound \<Rightarrow> sound" where
  "pause s =
     (let s1 = emit [AudioPause] s
      in if frame_truthy (animationFrame s1)
         then emit [CancelAnimationFrame (animationFrame s1)] s1
         else s1)"

definition stop :: "sound \<Rightarrow> sound" where
  "stop s = emit [SetCurrentTime (Fin 0)] (pause s)"

definition setPlayerState :: "props \<Rightarrow> sound \<Rightarrow> sound" where
  "setPlayerState p s =
     (if playStatus p = Some ''PAUSED'' then pause s
      else if playStatus p = Some ''STOPPED'' then stop s
      else play s)"

definition shouldUpdatePosition :: "props \<Rightarrow> props \<Rightarrow> bool" where
  "shouldUpdatePosition p prevProps =
     (let prevPosition = default_number (Fin 0) (position prevProps)
      in case position p of
           None \<Rightarrow> False
         | Some pos \<Rightarrow>
             (if truthy pos
              then js_lt pos prevPosition \<or> js_gt (js_sub pos prevPosition) (Fin 1)
              else False))"

definition setVolume :: "props \<Rightarrow> sound \<Rightarrow> sound" where
  "setVolume p s = emit [SetGainValue (js_div (default_number (Fin 100) (volume p)) (Fin 100))] s"

definition setPosition :: "props \<Rightarrow> sound \<Rightarrow> sound" where
  "setPosition p s =
     (case position p of
        None \<Rightarrow> s
      | Some pos \<Rightarrow> (if truthy pos then emit [SetCurrentTime pos] s else s))"

definition setStereoPan :: "props \<Rightarrow> sound \<Rightarrow> sound" where
  "setStereoPan p s =
     emit [SetPanValue (case stereoPan p of
                          None \<Rightarrow> Fin 0
                        | Some x \<Rightarrow> (if truthy x then x else Fin 0))] s"

section \<open>Reconciling a change of properties\<close>

text \<open>
  \<open>Object.entries(equalizer).toString()\<close>: every entry is its key, a comma and its value
  as a string, and the entries are joined by commas. \<open>toString\<close> is the host's conversion
  of a number to a string.
\<close>

fun join :: "string list \<Rightarrow> string" where
  "join [] = []"
| "join [x] = x"
| "join (x # y # ys) = x @ '','' @ join (y # ys)"

definition entries_toString :: "(number \<Rightarrow> string) \<Rightarrow> equalizer \<Rightarrow> string" where
  "entries_toString toString eq = join (map (\<lambda>e. fst e @ '','' @ toString (snd e)) eq)"

definition shouldUpdateEqualizer :: "(number \<Rightarrow> string) \<Rightarrow> props \<Rightarrow> props \<Rightarrow> bool" where
  "shouldUpdateEqualizer toString p prevProps =
     ((case equalizer p of
         None \<Rightarrow> False
       | Some eq \<Rightarrow>
           (case equalizer prevProps of
              None \<Rightarrow> False
            | Some prevEq \<Rightarrow> entries_toString toString eq \<noteq> entries_toString toString prevEq))
      \<or> \<not> strict_eq (preAmp p) (preAmp prevProps))"

text \<open>
  The body of \<open>componentDidUpdate\<close> can throw: \<open>this.filters[idx]\<close> is \<open>undefined\<close> past
  the end of the list, and reading \<open>gain\<close> of it is a TypeError, which ends the
  \<open>forEach\<close>. The outcome keeps the state the instance is left in.
\<close>

datatype error = TypeError nat

datatype outcome = Returned sound | Thrown error sound

fun state_of :: "outcome \<Rightarrow> sound" where
  "state_of (Returned s) = s"
| "state_of (Thrown e s) = s"

text \<open>The \<open>forEach\<close> over \<open>Object.values(equalizer)\<close>, from the index \<open>idx\<close>.\<close>

fun patchGains :: "number \<Rightarrow> number list \<Rightarrow> nat \<Rightarrow> sound \<Rightarrow> outcome" where
  "patchGains pre [] idx s = Returned s"
| "patchGains pre (v # vs) idx s =
     (if idx < length (filters s)
      then patchGains pre vs (idx + 1)
             (s\<lparr>filters := (filters s)[idx := (filters s ! idx)\<lparr>gain := js_add v pre\<rparr>],
                effects := effects s @ [SetFilterGain idx (js_add v pre)]\<rparr>)
      else Thrown (TypeError idx) s)"

text \<open>The last rule of \<open>componentDidUpdate\<close>, with the defaults of its destructuring.\<close>

definition updateEqualizer :: "(number \<Rightarrow> string) \<Rightarrow> props \<Rightarrow> props \<Rightarrow> sound \<Rightarrow> outcome" where
  "updateEqualizer toString p prevProps s =
     (if shouldUpdateEqualizer toString p prevProps
      then patchGains (default_number (Fin 0) (preAmp p))
             (map snd (case equalizer p of None \<Rightarrow> [] | Some eq \<Rightarrow> eq)) 0 s
      else Returned s)"

text \<open>The rule for the position: lines 246 to 248.\<close>

definition updatePosition :: "props \<Rightarrow> props \<Rightarrow> sound \<Rightarrow> sound" where
  "updatePosition p prevProps s = (if shouldUpdatePosition p prevProps then setPosition p s else s)"

definition componentDidUpdate ::
    "(number \<Rightarrow> string) \<Rightarrow> (string \<Rightarrow> number) \<Rightarrow> nat \<Rightarrow> 8 word list \<Rightarrow>
     props \<Rightarrow> props \<Rightarrow> sound \<Rightarrow> outcome option" where
  "componentDidUpdate toString toNumber frame bins p prevProps s =
     (let s1 = (if \<not> strict_eq (volume p) (volume prevProps) then setVolume p s else s);
          s2 = updatePosition p prevProps s1;
          s3 = (if playStatus p \<noteq> playStatus prevProps then setPlayerState p s2 else s2);
          s4 = (if \<not> strict_eq (Some (default_number (Fin 0) (stereoPan p))) (stereoPan prevProps)
                then setStereoPan p s3 else s3)
      in case (if \<not> onVisualizationChange prevProps \<and> onVisualizationChange p \<and> equalizer p \<noteq> None
               then handleVisualizationChange toNumber frame bins p s4
               else Some s4) of
           None \<Rightarrow> None
         | Some s5 \<Rightarrow>
             (let s6 = (if onVisualizationChange prevProps \<and> \<not> onVisualizationChange p
                        then emit [CancelAnimationFrame (animationFrame s5)] s5
                        else s5)
              in Some (updateEqualizer toString p prevProps s6)))"

definition componentDidMount :: "audioContext \<Rightarrow> (string \<Rightarrow> number) \<Rightarrow> props \<Rightarrow> sound \<Rightarrow> sound" where
  "componentDidMount ctx toNumber p s =
     (let s1 = emit [Connect SourceNode GainNode] s;
          built = createFilterNodes ctx toNumber p s1;
          s2 = emit [Connect (fst built) AnalyserNode, Connect AnalyserNode StereoPannerNode,
                     Connect StereoPannerNode Destination] (snd built)
      in setStereoPan p (setPlayerState p (setVolume p s2)))"

section \<open>Host conversions on decimal integers\<close>

text \<open>
  The theorems below hold for every conversion between strings and numbers. The worked
  instances need two concrete ones: \<open>Number\<close> read on strings of decimal digits (the empty
  string is 0; every other string is NaN here, where the host reads signs, fractions and
  exponents too) and the conversion of a number to a string on integers (empty on a finite
  number that is not an integer, where the host prints a decimal fraction).
\<close>

fun index_from :: "nat \<Rightarrow> char \<Rightarrow> string \<Rightarrow> nat option" where
  "index_from n c [] = None"
| "index_from n c (d # ds) = (if c = d then Some n else index_from (Suc n) c ds)"

definition digit_value :: "char \<Rightarrow> nat option" where
  "digit_value c = index_from 0 c ''0123456789''"

fun digits_value :: "nat \<Rightarrow> string \<Rightarrow> nat option" where
  "digits_value acc [] = Some acc"
| "digits_value acc (c # cs) =
     (case digit_value c of None \<Rightarrow> None | Some d \<Rightarrow> digits_value (10 * acc + d) cs)"

definition Number_digits :: "string \<Rightarrow> number" where
  "Number_digits k = (case digits_value 0 k of None \<Rightarrow> NaN | Some n \<Rightarrow> Fin (real n))"

definition digit_char :: "nat \<Rightarrow> char" where
  "digit_char d = ''0123456789'' ! d"

fun nat_digits :: "nat \<Rightarrow> string" where
  "nat_digits n = (if n < 10 then [digit_char n] else nat_digits (n div 10) @ [digit_char (n mod 10)])"

definition toString_integer :: "number \<Rightarrow> string" where
  "toString_integer x =
     (case x of
        NaN \<Rightarrow> ''NaN''
      | PosInf \<Rightarrow> ''Infinity''
      | NegInf \<Rightarrow> ''-Infinity''
      | Fin r \<Rightarrow>
          (if r = of_int \<lfloor>r\<rfloor>
           then (if r < 0 then ''-'' @ nat_digits (nat (- \<lfloor>r\<rfloor>)) else nat_digits (nat \<lfloor>r\<rfloor>))
           else []))"

section \<open>Notions of the specification\<close>

text \<open>
  The Q of an interior band as the specification gives it: twice the centre frequency over
  the distance of the two neighbouring frequencies.
\<close>

definition Q_formula :: "number \<Rightarrow> number \<Rightarrow> number \<Rightarrow> number" where
  "Q_formula before centre after = js_div (js_mul (Fin 2) centre) (Math_abs (js_sub after before))"

text \<open>The list \<open>createFilterNodes\<close> assigns to \<open>qValues\<close>, and the values of an equalizer.\<close>

definition built_qValues :: "(string \<Rightarrow> number) \<Rightarrow> string list \<Rightarrow> number option list" where
  "built_qValues toNumber arr = map (\<lambda>i. qValue toNumber (arr ! i) i arr) [0..<length arr]"

definition new_values :: "props \<Rightarrow> number list" where
  "new_values p = map snd (case equalizer p of None \<Rightarrow> [] | Some eq \<Rightarrow> eq)"

text \<open>The bound of the loop of \<open>formatDataVizByFrequency\<close>: the last frequency plus a step.\<close>

definition viz_bound :: "number list \<Rightarrow> number" where
  "viz_bound frequencies =
     dbl_add (to_number (js_index frequencies (int (length frequencies) - 1))) HERTZ_ITER"

text \<open>
  The scan as the specification words it. The checkpoints are the values the counter takes:
  0, then each time the previous value plus the step, in the host's arithmetic. A
  checkpoint is in the window of a band when it lies strictly between the band's frequency
  and that frequency plus a step. The scan goes through checkpoints in order with a cursor
  into the bands: a checkpoint in the window of the cursor's band is emitted and moves the
  cursor to the next band. The sample a checkpoint emits is the one at the bin
  \<open>round (i / step)\<close>. The scan ends at the first checkpoint above the bound; a checkpoint is
  scanned when no checkpoint up to it is above the bound.
\<close>

fun checkpoint :: "nat \<Rightarrow> number" where
  "checkpoint 0 = Fin 0"
| "checkpoint (Suc k) = dbl_add (checkpoint k) HERTZ_ITER"

definition in_band_window :: "number list \<Rightarrow> nat \<Rightarrow> nat \<Rightarrow> bool" where
  "in_band_window fs band k =
     (js_gt (checkpoint k) (to_number (js_index fs (int band))) \<and>
      js_lt (checkpoint k) (dbl_add (to_number (js_index fs (int band))) HERTZ_ITER))"

fun checkpoint_scan :: "number list \<Rightarrow> nat \<Rightarrow> nat list \<Rightarrow> nat list" where
  "checkpoint_scan fs cursor [] = []"
| "checkpoint_scan fs cursor (k # ks) =
     (if in_band_window fs cursor k then k # checkpoint_scan fs (cursor + 1) ks
      else checkpoint_scan fs cursor ks)"

definition bin_sample :: "8 word list \<Rightarrow> nat \<Rightarrow> sample" where
  "bin_sample data k = typed_array_get data (Math_round (dbl_div (checkpoint k) HERTZ_ITER))"

text \<open>The double nearest to 23.4, the value of \<open>HERTZ_ITER\<close>.\<close>

definition step :: real where
  "step = 3293257227514675 / 2 ^ 47"

definition scanned :: "number list \<Rightarrow> nat \<Rightarrow> bool" where
  "scanned fs k = list_all (\<lambda>j. js_le (checkpoint j) (viz_bound fs)) [0..<Suc k]"

definition scan_end :: "number list \<Rightarrow> nat \<Rightarrow> bool" where
  "scan_end fs m =
     (\<not> js_le (checkpoint m) (viz_bound fs) \<and>
      list_all (\<lambda>j. js_le (checkpoint j) (viz_bound fs)) [0..<m])"

text \<open>The commands to the audio element among the effects, and the connections made.\<close>

fun is_transport :: "effect \<Rightarrow> bool" where
  "is_transport AudioPlay = True"
| "is_transport AudioPause = True"
| "is_transport (SetCurrentTime t) = True"
| "is_transport _ = False"

definition transport_commands :: "effect list \<Rightarrow> effect list" where
  "transport_commands es = filter is_transport es"

fun is_connect :: "effect \<Rightarrow> bool" where
  "is_connect (Connect a b) = True"
| "is_connect _ = False"

definition connections :: "sound \<Rightarrow> effect list" where
  "connections s = filter is_connect (effects s)"

text \<open>Two states with the same chain: the same filters, Q values and connections.\<close>

definition same_chain :: "sound \<Rightarrow> sound \<Rightarrow> bool" where
  "same_chain s s' =
     (filters s' = filters s \<and> qValues s' = qValues s \<and> connections s' = connections s)"

section \<open>Worked instances\<close>

text \<open>
  A context whose fresh filters have the host's defaults, a configuration of two bands
  and one of four, and the instances mounted with them.
\<close>

definition example_context :: audioContext where
  "example_context =
     \<lparr>createBiquadFilter = \<lparr>type = lowpass, frequency = Fin 350, gain = Fin 0, Q = Fin 1\<rparr>\<rparr>"

definition two_bands :: props where
  "two_bands =
     \<lparr>url = ''sound.mp3'', playStatus = Some ''PLAYING'', position = None,
      volume = Some (Fin 80), onVisualizationChange = False,
      equalizer = Some [(''60'', Fin 0), (''100'', Fin 0)], preAmp = None,
      stereoPan = Some (Fin 0)\<rparr>"

definition four_bands :: props where
  "four_bands = two_bands\<lparr>equalizer :=
     Some [(''60'', Fin 0), (''170'', Fin 3), (''310'', Fin 0), (''600'', Fin 0)]\<rparr>"

definition mounted_two_bands :: sound where
  "mounted_two_bands = componentDidMount example_context Number_digits two_bands new_sound"

definition mounted_four_bands :: sound where
  "mounted_four_bands = componentDidMount example_context Number_digits four_bands new_sound"

section \<open>The filter chain\<close>

text \<open>
  The \<open>forEach\<close> of \<open>createFilterNodes\<close> leaves \<open>qValues\<close> alone and pushes one
  configured filter per key, in the order of the keys.
\<close>

lemma qValues_foldl_add_filter:
  "qValues (snd (foldl (add_filter ctx N eq pre arr) acc xs)) = qValues (snd acc)"
  by (induction xs arbitrary: acc) (simp_all add: add_filter_def Let_def)

lemma filters_foldl_add_filter:
  "filters (snd (foldl (add_filter ctx N eq pre arr) acc xs)) =
     filters (snd acc) @ map (\<lambda>i. configure ctx N eq pre (qValues (snd acc)) (arr ! i) i arr) xs"
proof (induction xs arbitrary: acc)
  case Nil
  show ?case by simp
next
  case (Cons x xs)
  have q: "qValues (snd (add_filter ctx N eq pre arr acc x)) = qValues (snd acc)"
    by (simp add: add_filter_def Let_def)
  have f: "filters (snd (add_filter ctx N eq pre arr acc x)) =
      filters (snd acc) @ [configure ctx N eq pre (qValues (snd acc)) (arr ! x) x arr]"
    by (simp add: add_filter_def Let_def)
  show ?case
    by (simp add: Cons.IH q f)
qed

lemma createFilterNodes_Some:
  "equalizer p = Some eq \<Longrightarrow>
   filters (snd (createFilterNodes ctx N p s)) =
     filters s @ map (\<lambda>i. configure ctx N eq (default_number (Fin 0) (preAmp p))
        (built_qValues N (map fst eq)) (map fst eq ! i) i (map fst eq)) [0..<length eq]"
  by (simp add: createFilterNodes_def Let_def filters_foldl_add_filter built_qValues_def)

lemma createFilterNodes_qValues:
  "equalizer p = Some eq \<Longrightarrow>
   qValues (snd (createFilterNodes ctx N p s)) = built_qValues N (map fst eq)"
  by (simp add: createFilterNodes_def Let_def qValues_foldl_add_filter built_qValues_def)

lemma length_filters_createFilterNodes:
  "length (filters (snd (createFilterNodes ctx N p s))) = length (filters s) + length (new_values p)"
proof (cases "equalizer p")
  case None
  then show ?thesis by (simp add: createFilterNodes_def new_values_def)
next
  case (Some eq)
  then show ?thesis by (simp add: createFilterNodes_Some new_values_def)
qed

lemma type_configure:
  "type (configure ctx N eq pre qs freq i arr) =
     (if i = 0 then lowshelf else if int i = int (length arr) - 1 then highshelf else peaking)"
  by (simp add: configure_def Let_def)

lemma frequency_configure: "frequency (configure ctx N eq pre qs freq i arr) = N freq"
  by (simp add: configure_def Let_def)

lemma gain_configure:
  "gain (configure ctx N eq pre qs freq i arr) = js_add (to_number (prop_get eq freq)) pre"
  by (simp add: configure_def Let_def)

lemma Q_configure:
  "Q (configure ctx N eq pre qs freq i arr) =
     (if i = 0 \<or> int i = int (length arr) - 1 then Q (createBiquadFilter ctx) else qValue_at qs i)"
  by (simp add: configure_def Let_def)

lemma built_qValues_nth:
  "i < length arr \<Longrightarrow> built_qValues N arr ! i = qValue N (arr ! i) i arr"
  by (simp add: built_qValues_def)

lemma Q_formula_Fin:
  "a \<noteq> c \<Longrightarrow> Q_formula (Fin a) (Fin b) (Fin c) = Fin (2 * b / \<bar>c - a\<bar>)"
  by (simp add: Q_formula_def js_sub_def)

lemma qValue_interior:
  "0 < i \<Longrightarrow> i + 1 < length arr \<Longrightarrow>
   qValue N (arr ! i) i arr = Some (Q_formula (N (arr ! (i - 1))) (N (arr ! i)) (N (arr ! (i + 1))))"
  by (simp add: qValue_def Q_formula_def)

lemma qValue_at_interior:
  "0 < i \<Longrightarrow> i + 1 < length arr \<Longrightarrow>
   qValue_at (built_qValues N arr) i = Q_formula (N (arr ! (i - 1))) (N (arr ! i)) (N (arr ! (i + 1)))"
  by (simp add: qValue_at_def js_index_def built_qValues_def qValue_interior)

lemma Number_digits_examples:
  "Number_digits ''60'' = Fin 60" "Number_digits ''100'' = Fin 100"
  "Number_digits ''170'' = Fin 170" "Number_digits ''310'' = Fin 310"
  "Number_digits ''600'' = Fin 600" "Number_digits ''117'' = Fin 117"
  "Number_digits ''200'' = Fin 200" "Number_digits ''400'' = Fin 400"
  by (simp_all add: Number_digits_def digit_value_def)

text \<open>
  Claim C1. For every non-empty equalizer of \<open>n\<close> entries, \<open>createFilterNodes\<close> adds
  exactly \<open>n\<close> filter stages, in the order of the keys (the stage at index \<open>i\<close> has the
  frequency of the key at index \<open>i\<close>). The stage at index 0 is a lowshelf, the stage at
  index \<open>n - 1\<close> is a highshelf when \<open>n \<ge> 2\<close>, and every stage between them is peaking.
  With one entry the single stage is a lowshelf. The Q of the first and of the last stage
  is never assigned: it is the Q of the fresh node.
\<close>

theorem createFilterNodes_stage_kinds:
  assumes "equalizer p = Some eq" and "eq \<noteq> []"
  shows "\<exists>stages. filters (snd (createFilterNodes ctx toNumber p s)) = filters s @ stages
      \<and> length stages = length eq
      \<and> map frequency stages = map (\<lambda>e. toNumber (fst e)) eq
      \<and> type (stages ! 0) = lowshelf
      \<and> Q (stages ! 0) = Q (createBiquadFilter ctx)
      \<and> (2 \<le> length eq \<longrightarrow> type (stages ! (length eq - 1)) = highshelf)
      \<and> Q (stages ! (length eq - 1)) = Q (createBiquadFilter ctx)
      \<and> (\<forall>i. 0 < i \<and> i + 1 < length eq \<longrightarrow> type (stages ! i) = peaking)
      \<and> (length eq = 1 \<longrightarrow> map type stages = [lowshelf])"
proof -
  let ?arr = "map fst eq"
  let ?stage = "\<lambda>i. configure ctx toNumber eq (default_number (Fin 0) (preAmp p))
        (built_qValues toNumber ?arr) (?arr ! i) i ?arr"
  let ?stages = "map ?stage [0..<length eq]"
  have n: "0 < length eq" using assms(2) by simp
  have a: "filters (snd (createFilterNodes ctx toNumber p s)) = filters s @ ?stages"
    using assms(1) by (rule createFilterNodes_Some)
  have b: "length ?stages = length eq" by simp
  have c: "map frequency ?stages = map (\<lambda>e. toNumber (fst e)) eq"
    by (rule nth_equalityI) (simp_all add: frequency_configure)
  have d: "type (?stages ! 0) = lowshelf" using n by (simp add: type_configure)
  have e: "Q (?stages ! 0) = Q (createBiquadFilter ctx)" using n by (simp add: Q_configure)
  have f: "2 \<le> length eq \<longrightarrow> type (?stages ! (length eq - 1)) = highshelf"
    using n by (auto simp add: type_configure)
  have g: "Q (?stages ! (length eq - 1)) = Q (createBiquadFilter ctx)"
    using n by (auto simp add: Q_configure)
  have h: "\<forall>i. 0 < i \<and> i + 1 < length eq \<longrightarrow> type (?stages ! i) = peaking"
    by (auto simp add: type_configure)
  have i: "length eq = 1 \<longrightarrow> map type ?stages = [lowshelf]"
    by (auto simp add: type_configure)
  show ?thesis
    by (rule exI [where x = ?stages]) (intro conjI a b c d e f g h i)
qed

theorem createFilterNodes_stage_kinds_witness:
  "equalizer four_bands = Some [(''60'', Fin 0), (''170'', Fin 3), (''310'', Fin 0), (''600'', Fin 0)]
   \<and> map type (filters (snd (createFilterNodes example_context Number_digits four_bands new_sound)))
       = [lowshelf, peaking, peaking, highshelf]"
proof -
  let ?eq = "[(''60'', Fin 0), (''170'', Fin 3), (''310'', Fin 0), (''600'', Fin 0)]"
  have h: "equalizer four_bands = Some ?eq" by (simp add: four_bands_def)
  have ne: "?eq \<noteq> []" by simp
  from createFilterNodes_stage_kinds [OF h ne, of example_context Number_digits new_sound]
  obtain stages where
    f: "filters (snd (createFilterNodes example_context Number_digits four_bands new_sound)) =
        filters new_sound @ stages"
    and len: "length stages = 4"
    and t0: "type (stages ! 0) = lowshelf"
    and t3: "type (stages ! 3) = highshelf"
    and ti: "\<forall>i. 0 < i \<and> i + 1 < 4 \<longrightarrow> type (stages ! i) = peaking"
    by auto
  have t1: "type (stages ! 1) = peaking" and t2: "type (stages ! 2) = peaking"
    using ti by simp_all
  have "map type stages = [lowshelf, peaking, peaking, highshelf]"
  proof (rule nth_equalityI)
    show "length (map type stages) = length [lowshelf, peaking, peaking, highshelf]"
      using len by simp
  next
    fix i assume "i < length (map type stages)"
    then have "i = 0 \<or> i = 1 \<or> i = 2 \<or> i = 3" using len by auto
    then show "map type stages ! i = [lowshelf, peaking, peaking, highshelf] ! i"
      using t0 t1 t2 t3 len by auto
  qed
  with f h show ?thesis by (simp add: new_sound_def)
qed

text \<open>
  Claim C2. At construction, the Q value stored for every interior index \<open>i\<close> is
  \<open>(2 * f i) / |f (i + 1) - f (i - 1)|\<close>, computed with the host's arithmetic on the numbers
  \<open>f\<close> of the keys, and the Q parameter of the stage at that index is set to this value;
  the Q values stored for the index 0 and for the last index are \<open>null\<close>. Where the three
  frequencies are finite and the two neighbours differ, the value is the real quotient.
\<close>

theorem createFilterNodes_qValues_formula:
  assumes "equalizer p = Some eq"
  shows "\<exists>stages. filters (snd (createFilterNodes ctx toNumber p s)) = filters s @ stages
     \<and> length stages = length eq
     \<and> length (qValues (snd (createFilterNodes ctx toNumber p s))) = length eq
     \<and> (\<forall>i<length eq. i = 0 \<or> i = length eq - 1 \<longrightarrow>
          qValues (snd (createFilterNodes ctx toNumber p s)) ! i = None)
     \<and> (\<forall>i. 0 < i \<and> i + 1 < length eq \<longrightarrow>
          qValues (snd (createFilterNodes ctx toNumber p s)) ! i =
            Some (Q_formula (toNumber (fst (eq ! (i - 1)))) (toNumber (fst (eq ! i)))
                    (toNumber (fst (eq ! (i + 1)))))
          \<and> Q (stages ! i) =
              Q_formula (toNumber (fst (eq ! (i - 1)))) (toNumber (fst (eq ! i)))
                (toNumber (fst (eq ! (i + 1)))))
     \<and> (\<forall>i a b c. 0 < i \<and> i + 1 < length eq
          \<and> toNumber (fst (eq ! (i - 1))) = Fin a \<and> toNumber (fst (eq ! i)) = Fin b
          \<and> toNumber (fst (eq ! (i + 1))) = Fin c \<and> a \<noteq> c \<longrightarrow>
          Q (stages ! i) = Fin (2 * b / \<bar>c - a\<bar>))"
proof -
  let ?arr = "map fst eq"
  let ?stage = "\<lambda>i. configure ctx toNumber eq (default_number (Fin 0) (preAmp p))
        (built_qValues toNumber ?arr) (?arr ! i) i ?arr"
  let ?stages = "map ?stage [0..<length eq]"
  let ?qs = "qValues (snd (createFilterNodes ctx toNumber p s))"
  have qs: "?qs = built_qValues toNumber ?arr"
    using assms by (rule createFilterNodes_qValues)
  have a: "filters (snd (createFilterNodes ctx toNumber p s)) = filters s @ ?stages"
    using assms by (rule createFilterNodes_Some)
  have b: "length ?stages = length eq" by simp
  have c: "length ?qs = length eq" by (simp add: qs built_qValues_def)
  have d: "\<forall>i<length eq. i = 0 \<or> i = length eq - 1 \<longrightarrow> ?qs ! i = None"
    by (auto simp add: qs built_qValues_nth qValue_def)
  have e: "\<forall>i. 0 < i \<and> i + 1 < length eq \<longrightarrow>
          ?qs ! i = Some (Q_formula (toNumber (fst (eq ! (i - 1)))) (toNumber (fst (eq ! i)))
                    (toNumber (fst (eq ! (i + 1)))))
          \<and> Q (?stages ! i) =
              Q_formula (toNumber (fst (eq ! (i - 1)))) (toNumber (fst (eq ! i)))
                (toNumber (fst (eq ! (i + 1))))"
  proof (intro allI impI)
    fix i assume "0 < i \<and> i + 1 < length eq"
    then have i0: "0 < i" and i1: "i + 1 < length ?arr" by simp_all
    have n0: "?arr ! (i - 1) = fst (eq ! (i - 1))" and n1: "?arr ! i = fst (eq ! i)"
      and n2: "?arr ! (i + 1) = fst (eq ! (i + 1))"
      using i1 by simp_all
    have "\<not> (i = 0 \<or> int i = int (length ?arr) - 1)" using i0 i1 by auto
    then have "Q (?stage i) = qValue_at (built_qValues toNumber ?arr) i"
      by (simp only: Q_configure if_False)
    then have q: "Q (?stages ! i) =
        Q_formula (toNumber (?arr ! (i - 1))) (toNumber (?arr ! i)) (toNumber (?arr ! (i + 1)))"
      using i1 by (simp add: qValue_at_interior [OF i0 i1])
    have "?qs ! i = qValue toNumber (?arr ! i) i ?arr"
      using i1 by (simp only: qs built_qValues_nth)
    then have v: "?qs ! i =
        Some (Q_formula (toNumber (?arr ! (i - 1))) (toNumber (?arr ! i)) (toNumber (?arr ! (i + 1))))"
      by (simp only: qValue_interior [OF i0 i1])
    show "?qs ! i = Some (Q_formula (toNumber (fst (eq ! (i - 1)))) (toNumber (fst (eq ! i)))
                    (toNumber (fst (eq ! (i + 1)))))
          \<and> Q (?stages ! i) =
              Q_formula (toNumber (fst (eq ! (i - 1)))) (toNumber (fst (eq ! i)))
                (toNumber (fst (eq ! (i + 1))))"
      using q v by (simp only: n0 n1 n2)
  qed
  have f: "\<forall>i a b c. 0 < i \<and> i + 1 < length eq
          \<and> toNumber (fst (eq ! (i - 1))) = Fin a \<and> toNumber (fst (eq ! i)) = Fin b
          \<and> toNumber (fst (eq ! (i + 1))) = Fin c \<and> a \<noteq> c \<longrightarrow>
          Q (?stages ! i) = Fin (2 * b / \<bar>c - a\<bar>)"
  proof (intro allI impI)
    fix i a b c'
    assume h: "0 < i \<and> i + 1 < length eq
          \<and> toNumber (fst (eq ! (i - 1))) = Fin a \<and> toNumber (fst (eq ! i)) = Fin b
          \<and> toNumber (fst (eq ! (i + 1))) = Fin c' \<and> a \<noteq> c'"
    then have "Q (?stages ! i) = Q_formula (Fin a) (Fin b) (Fin c')"
      using e by auto
    then show "Q (?stages ! i) = Fin (2 * b / \<bar>c' - a\<bar>)"
      using h by (simp add: Q_formula_Fin)
  qed
  show ?thesis
    by (rule exI [where x = ?stages]) (intro conjI a b c d e f)
qed

theorem createFilterNodes_qValues_formula_witness:
  "equalizer four_bands = Some [(''60'', Fin 0), (''170'', Fin 3), (''310'', Fin 0), (''600'', Fin 0)]
   \<and> Q (filters (snd (createFilterNodes example_context Number_digits four_bands new_sound)) ! 1)
       = Fin (34 / 25)
   \<and> qValues (snd (createFilterNodes example_context Number_digits four_bands new_sound)) ! 0 = None"
proof -
  let ?eq = "[(''60'', Fin 0), (''170'', Fin 3), (''310'', Fin 0), (''600'', Fin 0)]"
  let ?s = "snd (createFilterNodes example_context Number_digits four_bands new_sound)"
  have h: "equalizer four_bands = Some ?eq" by (simp add: four_bands_def)
  from createFilterNodes_qValues_formula [OF h, of example_context Number_digits new_sound]
  obtain stages where
    f: "filters ?s = filters new_sound @ stages"
    and n: "\<forall>i<length ?eq. i = 0 \<or> i = length ?eq - 1 \<longrightarrow> qValues ?s ! i = None"
    and q: "\<forall>i a b c. 0 < i \<and> i + 1 < length ?eq
          \<and> Number_digits (fst (?eq ! (i - 1))) = Fin a \<and> Number_digits (fst (?eq ! i)) = Fin b
          \<and> Number_digits (fst (?eq ! (i + 1))) = Fin c \<and> a \<noteq> c \<longrightarrow>
          Q (stages ! i) = Fin (2 * b / \<bar>c - a\<bar>)"
    by blast
  have "Q (stages ! 1) = Fin (2 * 170 / \<bar>310 - 60\<bar>)"
    by (rule q [rule_format]) (simp add: Number_digits_examples)
  moreover have "filters new_sound = []" by (simp add: new_sound_def)
  ultimately have "Q (filters ?s ! 1) = Fin (34 / 25)"
    by (simp only: f append_Nil) simp
  moreover have "qValues ?s ! 0 = None"
    using n by auto
  ultimately show ?thesis using h by simp
qed

section \<open>Rounding to double precision\<close>

text \<open>
  Rounding a real between 1 and \<open>2 ^ N\<close> (\<open>N\<close> at most 53) to a double moves it by at most
  \<open>2 ^ N / 2 ^ 54\<close>. The step of the loop is the double \<open>step\<close>, within \<open>1 / 2 ^ 49\<close> of
  23.4.
\<close>

lemma log2_floor_bounds:
  "0 < n \<Longrightarrow> 2 ^ log2_floor n \<le> n \<and> n < 2 ^ Suc (log2_floor n)"
proof (induction n rule: log2_floor.induct)
  case (1 n)
  show ?case
  proof (cases "n < 2")
    case True
    with "1.prems" have "n = 1" by simp
    then show ?thesis by (simp add: log2_floor.simps)
  next
    case False
    then have "0 < n div 2" by simp
    with "1.IH" False have a: "2 ^ log2_floor (n div 2) \<le> n div 2"
      and b: "n div 2 < 2 ^ Suc (log2_floor (n div 2))"
      by simp_all
    have l: "log2_floor n = Suc (log2_floor (n div 2))"
      using False by (subst log2_floor.simps) simp
    from a have "2 * 2 ^ log2_floor (n div 2) \<le> n" by linarith
    moreover from b have "n < 2 * 2 ^ Suc (log2_floor (n div 2))" by linarith
    ultimately show ?thesis by (simp add: l)
  qed
qed

lemma round_half_even_near: "\<bar>of_int (round_half_even y) - y\<bar> \<le> 1 / 2"
proof -
  have "of_int \<lfloor>y\<rfloor> \<le> y" and "y < of_int \<lfloor>y\<rfloor> + 1" by linarith+
  then show ?thesis
    by (auto simp add: round_half_even_def Let_def)
qed

lemma fl_near:
  assumes "1 \<le> x" and "x < 2 ^ N" and "N \<le> 53"
  shows "\<exists>r. fl x = Fin r \<and> \<bar>r - x\<bar> \<le> 2 ^ N / 2 ^ 54"
proof -
  define n where "n = nat \<lfloor>x\<rfloor>"
  define e where "e = log2_floor n"
  have n: "0 < n" using assms(1) by (simp add: n_def)
  have "0 \<le> \<lfloor>x\<rfloor>" using assms(1) by simp
  then have "real n = of_int \<lfloor>x\<rfloor>" by (simp add: n_def)
  then have nx: "real n \<le> x" by simp
  from log2_floor_bounds [OF n] have lo: "2 ^ e \<le> n" by (simp add: e_def)
  have "real n < 2 ^ N" using nx assms(2) by linarith
  then have "n < 2 ^ N" by (metis of_nat_less_iff of_nat_numeral of_nat_power)
  with lo have "(2::nat) ^ e < 2 ^ N" by linarith
  then have eN: "e < N" by simp
  then have e52: "e \<le> 52" using assms(3) by simp
  have ex: "exponent x = int e"
    using assms(1) by (simp add: exponent_def n_def e_def)
  define u :: real where "u = 1 / 2 ^ (52 - e)"
  have u: "pow2 (max (exponent x) (- 1022) - 52) = u"
    using e52 by (auto simp add: ex pow2_def u_def nat_diff_distrib')
  have upos: "0 < u" by (simp add: u_def)
  define r where "r = of_int (round_half_even (x / u)) * u"
  have "\<bar>of_int (round_half_even (x / u)) - x / u\<bar> \<le> 1 / 2" by (rule round_half_even_near)
  then have "\<bar>of_int (round_half_even (x / u)) - x / u\<bar> * u \<le> 1 / 2 * u"
    using upos by (intro mult_right_mono) simp_all
  moreover have "\<bar>of_int (round_half_even (x / u)) - x / u\<bar> * u = \<bar>r - x\<bar>"
  proof -
    have "r - x = (of_int (round_half_even (x / u)) - x / u) * u"
      using upos by (simp add: r_def algebra_simps)
    then show ?thesis using upos by (simp add: abs_mult)
  qed
  ultimately have half: "\<bar>r - x\<bar> \<le> u / 2" by simp
  have uN: "u / 2 \<le> 2 ^ N / 2 ^ 54"
  proof -
    have "(2::real) ^ 53 \<le> 2 ^ (52 - e) * 2 ^ N"
    proof -
      have "53 \<le> (52 - e) + N" using eN e52 by simp
      then have "(2::real) ^ 53 \<le> 2 ^ ((52 - e) + N)" by (intro power_increasing) simp_all
      then show ?thesis by (simp add: power_add)
    qed
    then show ?thesis by (simp add: u_def field_simps)
  qed
  have small: "\<bar>r - x\<bar> \<le> 1 / 2"
  proof -
    have "(2::real) ^ N \<le> 2 ^ 53" using assms(3) by (intro power_increasing) simp_all
    then have "(2::real) ^ N / 2 ^ 54 \<le> 1 / 2" by simp
    with half uN show ?thesis by linarith
  qed
  have "x < 2 ^ 53"
  proof -
    have "(2::real) ^ N \<le> 2 ^ 53" using assms(3) by (intro power_increasing) simp_all
    with assms(2) show ?thesis by linarith
  qed
  with small assms(1) have "\<bar>r\<bar> < 2 ^ 53 + 1" by linarith
  moreover have "(2::real) ^ 53 + 1 \<le> 2 ^ 1024" by simp
  ultimately have "\<not> pow2 1024 \<le> \<bar>r\<bar>" by (simp add: pow2_def)
  then have "fl x = Fin r"
    using assms(1) by (simp add: fl_def Let_def u r_def)
  with half uN show ?thesis by auto
qed

lemma HERTZ_ITER_eq: "HERTZ_ITER = Fin step"
  by (simp add: HERTZ_ITER_def step_def fl_def exponent_def pow2_def round_half_even_def Let_def
      log2_floor.simps)


lemma step_bounds: "23 < step" "step < 23.5"
  by (simp_all add: step_def)

section \<open>The checkpoint scan\<close>

text \<open>
  The checkpoints are the values of the counter of the loop. Below \<open>2 ^ 52\<close> every addition
  of the step moves the counter up by 22 at least, so the counter passes every bound below
  \<open>2 ^ 52\<close>; up to the checkpoint number 1000 the rounding errors add up to at most
  \<open>k / 2 ^ 39\<close> at the checkpoint number \<open>k\<close>.
\<close>

lemma checkpoint_step:
  assumes "checkpoint k = Fin c" and "0 \<le> c" and "c + 24 \<le> 2 ^ N" and "N \<le> 53"
  shows "\<exists>c'. checkpoint (Suc k) = Fin c' \<and> \<bar>c' - (c + step)\<bar> \<le> 2 ^ N / 2 ^ 54"
proof -
  have "1 \<le> c + step" using assms(2) step_bounds by linarith
  moreover have "c + step < 2 ^ N" using assms(3) step_bounds by linarith
  ultimately obtain r where r: "fl (c + step) = Fin r" and n: "\<bar>r - (c + step)\<bar> \<le> 2 ^ N / 2 ^ 54"
    using fl_near [OF _ _ assms(4)] by blast
  have "checkpoint (Suc k) = Fin r"
    using assms(1) r by (simp add: dbl_add_def HERTZ_ITER_eq)
  with n show ?thesis by blast
qed

lemma checkpoint_step_22:
  assumes "checkpoint k = Fin c" and "0 \<le> c" and "c < 2 ^ 52"
  shows "\<exists>c'. checkpoint (Suc k) = Fin c' \<and> c + 22 \<le> c' \<and> c' \<le> c + 24"
proof -
  have "c + 24 \<le> 2 ^ 53" using assms(3) by simp
  from checkpoint_step [OF assms(1,2) this] obtain c' where
    c': "checkpoint (Suc k) = Fin c'" and n: "\<bar>c' - (c + step)\<bar> \<le> 2 ^ 53 / 2 ^ 54"
    by auto
  from n have "\<bar>c' - (c + step)\<bar> \<le> 1 / 2" by simp
  with step_bounds have "c + 22 \<le> c'" and "c' \<le> c + 24" by linarith+
  with c' show ?thesis by blast
qed

lemma checkpoint_grows:
  assumes "b < 2 ^ 52"
  shows "(\<forall>j<k. js_le (checkpoint j) (Fin b)) \<Longrightarrow> \<exists>c. checkpoint k = Fin c \<and> 22 * real k \<le> c"
proof (induction k)
  case 0
  then show ?case by simp
next
  case (Suc k)
  then obtain c where c: "checkpoint k = Fin c" and g: "22 * real k \<le> c" by auto
  from Suc.prems have "js_le (checkpoint k) (Fin b)" by simp
  with c have "c \<le> b" by (auto simp add: js_le_def)
  with assms have "c < 2 ^ 52" by linarith
  moreover have "0 \<le> c" using g by (simp add: order_trans [of 0 "22 * real k" c])
  ultimately obtain c' where "checkpoint (Suc k) = Fin c'" and "c + 22 \<le> c'"
    using checkpoint_step_22 [OF c] by blast
  with g show ?case by (auto simp add: algebra_simps)
qed

lemma exit_exists:
  assumes "b < 2 ^ 52"
  shows "\<exists>m. \<not> js_le (checkpoint m) (Fin b) \<and> (\<forall>j<m. js_le (checkpoint j) (Fin b))"
proof -
  have ex: "\<exists>m. \<not> js_le (checkpoint m) (Fin b)"
  proof (rule ccontr)
    assume "\<not> (\<exists>m. \<not> js_le (checkpoint m) (Fin b))"
    then have all: "\<forall>m. js_le (checkpoint m) (Fin b)" by simp
    define k where "k = nat \<lceil>b\<rceil> + 1"
    from checkpoint_grows [OF assms, of k] all obtain c where
      c: "checkpoint k = Fin c" and g: "22 * real k \<le> c" by auto
    from all c have "c \<le> b" by (metis js_le_def js_lt.simps(1) number.inject order_less_imp_le order_refl)
    moreover have "b < real k" unfolding k_def by linarith
    moreover have "real k \<le> 22 * real k" by simp
    ultimately show False using g by linarith
  qed
  define m where "m = (LEAST m. \<not> js_le (checkpoint m) (Fin b))"
  have "\<not> js_le (checkpoint m) (Fin b)"
    unfolding m_def using ex by (rule LeastI_ex)
  moreover have "\<forall>j<m. js_le (checkpoint j) (Fin b)"
    unfolding m_def using not_less_Least by blast
  ultimately show ?thesis by blast
qed



text \<open>
  The loop from a checkpoint on: it returns what the scan emits among the checkpoints
  before the first one above the bound, and it returns only when there is such a
  checkpoint.
\<close>

lemma window_test:
  "(js_gt (checkpoint k) (to_number (js_index fs (int c))) \<and>
    js_lt (checkpoint k) (dbl_add (to_number (js_index fs (int c))) HERTZ_ITER))
   = in_band_window fs c k"
  by (simp add: in_band_window_def)

lemma viz_loop_until:
  assumes stop: "\<not> js_le (checkpoint m) (viz_bound fs)"
  shows "k \<le> m \<Longrightarrow> (\<forall>j. k \<le> j \<and> j < m \<longrightarrow> js_le (checkpoint j) (viz_bound fs)) \<Longrightarrow>
    viz_loop fs data (checkpoint k) c vs =
      Some (vs @ map (bin_sample data) (checkpoint_scan fs c [k..<m]))"
proof (induction "m - k" arbitrary: k c vs)
  case 0
  then have k: "k = m" by simp
  show ?case
    using stop unfolding k
    by (subst viz_loop.simps) (simp add: viz_bound_def)
next
  case (Suc n)
  then have k: "k < m" by simp
  with Suc.prems have le: "js_le (checkpoint k) (viz_bound fs)" by simp
  have upt: "[k..<m] = k # [Suc k..<m]"
    using k by (simp add: upt_conv_Cons)
  have n: "n = m - Suc k" using Suc.hyps(2) by simp
  have sk: "Suc k \<le> m" using k by simp
  have rest: "\<forall>j. Suc k \<le> j \<and> j < m \<longrightarrow> js_le (checkpoint j) (viz_bound fs)"
    using Suc.prems(2) by simp
  have next_k: "dbl_add (checkpoint k) HERTZ_ITER = checkpoint (Suc k)" by simp
  have here: "typed_array_get data (Math_round (dbl_div (checkpoint k) HERTZ_ITER)) = bin_sample data k"
    by (simp add: bin_sample_def)
  show ?case
  proof (cases "in_band_window fs c k")
    case True
    have "viz_loop fs data (checkpoint (Suc k)) (c + 1) (vs @ [bin_sample data k]) =
        Some ((vs @ [bin_sample data k]) @
          map (bin_sample data) (checkpoint_scan fs (c + 1) [Suc k..<m]))"
      by (rule Suc.hyps(1) [OF n sk rest])
    then show ?thesis
      using le True
      by (subst viz_loop.simps)
         (simp only: viz_bound_def [symmetric] window_test next_k here upt if_True
            checkpoint_scan.simps list.map append_assoc append_Cons append_Nil simp_thms)
  next
    case False
    have "viz_loop fs data (checkpoint (Suc k)) c vs =
        Some (vs @ map (bin_sample data) (checkpoint_scan fs c [Suc k..<m]))"
      by (rule Suc.hyps(1) [OF n sk rest])
    then show ?thesis
      using le False
      by (subst viz_loop.simps)
         (simp only: viz_bound_def [symmetric] window_test next_k here upt if_True if_False
            checkpoint_scan.simps simp_thms)
  qed
qed

lemma viz_loop_returned_aux:
  "viz_loop fs data i c vs = Some out \<Longrightarrow>
   \<forall>k. i = checkpoint k \<longrightarrow>
     (\<exists>m\<ge>k. \<not> js_le (checkpoint m) (viz_bound fs) \<and>
        (\<forall>j. k \<le> j \<and> j < m \<longrightarrow> js_le (checkpoint j) (viz_bound fs)))"
proof (induction arbitrary: out rule: viz_loop.raw_induct[rotated 1, consumes 1])
  case (1 viz_loop' fs data i c vs out)
  show ?case
  proof (intro allI impI)
    fix k assume i: "i = checkpoint k"
    show "\<exists>m\<ge>k. \<not> js_le (checkpoint m) (viz_bound fs) \<and>
        (\<forall>j. k \<le> j \<and> j < m \<longrightarrow> js_le (checkpoint j) (viz_bound fs))"
    proof (cases "js_le i (viz_bound fs)")
      case False
      with i show ?thesis by auto
    next
      case True
      have next_i: "dbl_add i HERTZ_ITER = checkpoint (Suc k)" using i by simp
      from 1(2) True have
        "viz_loop' fs data (dbl_add i HERTZ_ITER) (c + 1)
            (vs @ [typed_array_get data (Math_round (dbl_div i HERTZ_ITER))]) = Some out
         \<or> viz_loop' fs data (dbl_add i HERTZ_ITER) c vs = Some out"
        by (simp add: viz_bound_def split: if_splits)
      with 1(1) next_i obtain m where m: "Suc k \<le> m"
        "\<not> js_le (checkpoint m) (viz_bound fs)"
        "\<forall>j. Suc k \<le> j \<and> j < m \<longrightarrow> js_le (checkpoint j) (viz_bound fs)"
        by blast
      have "\<forall>j. k \<le> j \<and> j < m \<longrightarrow> js_le (checkpoint j) (viz_bound fs)"
      proof (intro allI impI)
        fix j assume j: "k \<le> j \<and> j < m"
        show "js_le (checkpoint j) (viz_bound fs)"
        proof (cases "j = k")
          case True
          with \<open>js_le i (viz_bound fs)\<close> i show ?thesis by simp
        next
          case False
          with j m(3) show ?thesis by simp
        qed
      qed
      with m show ?thesis by (intro exI [of _ m]) simp
    qed
  qed
qed

lemma scan_end_iff:
  "scan_end fs m \<longleftrightarrow>
     \<not> js_le (checkpoint m) (viz_bound fs) \<and> (\<forall>j<m. js_le (checkpoint j) (viz_bound fs))"
  by (auto simp add: scan_end_def list_all_iff)

lemma scanned_iff: "scanned fs k \<longleftrightarrow> (\<forall>j\<le>k. js_le (checkpoint j) (viz_bound fs))"
  by (auto simp add: scanned_def list_all_iff less_Suc_eq_le)

lemma scan_end_unique: "scan_end fs m \<Longrightarrow> scan_end fs m' \<Longrightarrow> m = m'"
  by (metis linorder_neqE_nat scan_end_iff)

lemma scan_end_scanned: "scan_end fs m \<Longrightarrow> k < m \<Longrightarrow> scanned fs k"
  by (simp add: scan_end_iff scanned_iff)

lemma formatDataVizByFrequency_scan:
  assumes "equalizer p = Some eq"
  shows "scan_end (map N (map fst eq)) m \<Longrightarrow>
     formatDataVizByFrequency N p data =
       Some (map (bin_sample data) (checkpoint_scan (map N (map fst eq)) 0 [0..<m]))"
  using viz_loop_until [of m "map N (map fst eq)" 0 data 0 "[]"] assms
  by (simp add: formatDataVizByFrequency_def scan_end_iff)

lemma formatDataVizByFrequency_returned:
  assumes "equalizer p = Some eq" and "formatDataVizByFrequency N p data = Some out"
  shows "\<exists>m. scan_end (map N (map fst eq)) m \<and>
     out = map (bin_sample data) (checkpoint_scan (map N (map fst eq)) 0 [0..<m])"
proof -
  let ?fs = "map N (map fst eq)"
  from assms have "viz_loop ?fs data (Fin 0) 0 [] = Some out"
    by (simp only: formatDataVizByFrequency_def option.case)
  from viz_loop_returned_aux [OF this, rule_format, of 0] obtain m where
    "\<not> js_le (checkpoint m) (viz_bound ?fs)"
    "\<forall>j. 0 \<le> j \<and> j < m \<longrightarrow> js_le (checkpoint j) (viz_bound ?fs)"
    by auto
  then have "scan_end ?fs m" by (simp add: scan_end_iff)
  with formatDataVizByFrequency_scan [OF assms(1) this, of data] assms(2) show ?thesis
    by auto
qed

lemma scan_end_exists:
  assumes "viz_bound fs \<noteq> PosInf" and "\<forall>b. viz_bound fs = Fin b \<longrightarrow> b < 2 ^ 52"
  shows "\<exists>m. scan_end fs m"
proof (cases "viz_bound fs")
  case (Fin b)
  with assms(2) have "b < 2 ^ 52" by simp
  from exit_exists [OF this] Fin show ?thesis by (simp add: scan_end_iff)
next
  case PosInf
  with assms(1) show ?thesis by simp
next
  case NegInf
  then have "scan_end fs 0" by (simp add: scan_end_def js_le_def)
  then show ?thesis ..
next
  case NaN
  then have "scan_end fs 0" by (simp add: scan_end_def js_le_def)
  then show ?thesis ..
qed

lemma formatDataVizByFrequency_returns:
  assumes "equalizer p = Some eq"
    and "viz_bound (map N (map fst eq)) \<noteq> PosInf"
    and "\<forall>b. viz_bound (map N (map fst eq)) = Fin b \<longrightarrow> b < 2 ^ 52"
  shows "\<exists>out. formatDataVizByFrequency N p data = Some out"
  using scan_end_exists [OF assms(2,3)] formatDataVizByFrequency_scan [OF assms(1)]
  by blast








lemma checkpoint_scan_stuck:
  "\<forall>k\<in>set ks. \<not> in_band_window fs j k \<Longrightarrow> c \<le> j \<Longrightarrow> c + length (checkpoint_scan fs c ks) \<le> j"
proof (induction ks arbitrary: c)
  case Nil
  then show ?case by simp
next
  case (Cons k ks)
  show ?case
  proof (cases "in_band_window fs c k")
    case True
    with Cons.prems have "c \<noteq> j" by auto
    with Cons.prems have "c + 1 \<le> j" by simp
    with Cons.IH [of "c + 1"] Cons.prems True show ?thesis by simp
  next
    case False
    with Cons.IH [of c] Cons.prems show ?thesis by simp
  qed
qed

text \<open>
  The checkpoints that are scanned ascend. So a band whose frequency is itself a scanned
  checkpoint has no checkpoint in its window: the window ends at the next checkpoint.
\<close>

lemma checkpoint_mono_scanned:
  assumes b: "viz_bound fs = Fin b" "b < 2 ^ 52" and s: "scanned fs k"
  shows "i \<le> j \<Longrightarrow> j \<le> Suc k \<Longrightarrow>
    \<exists>ci cj. checkpoint i = Fin ci \<and> checkpoint j = Fin cj \<and> 0 \<le> ci \<and> ci \<le> cj"
proof (induction j)
  case 0
  then show ?case by simp
next
  case (Suc j)
  have jk: "j \<le> k" using Suc.prems by simp
  have all: "\<forall>l<j. js_le (checkpoint l) (Fin b)"
    using s jk b by (simp add: scanned_iff)
  from checkpoint_grows [OF b(2) all] obtain c where c: "checkpoint j = Fin c"
    and g0: "22 * real j \<le> c" by blast
  have c0: "0 \<le> c" using g0 by (simp add: order_trans [of 0 "22 * real j" c])
  have "js_le (checkpoint j) (Fin b)" using s jk b by (simp add: scanned_iff)
  with c have "c \<le> b" by (auto simp add: js_le_def)
  with b(2) have "c < 2 ^ 52" by linarith
  from checkpoint_step_22 [OF c c0 this] obtain c' where
    c': "checkpoint (Suc j) = Fin c'" and g: "c + 22 \<le> c'" by blast
  show ?case
  proof (cases "i = Suc j")
    case True
    with c' c0 g show ?thesis by auto
  next
    case False
    with Suc.prems have "i \<le> j" by simp
    from Suc.IH [OF this] jk c obtain ci where "checkpoint i = Fin ci" "0 \<le> ci" "ci \<le> c"
      by auto
    with c' g show ?thesis by auto
  qed
qed

lemma checkpoint_frequency_no_checkpoint:
  assumes b: "viz_bound fs = Fin b" "b < 2 ^ 52"
    and f: "js_index fs (int band) = Some (checkpoint k0)" and s0: "scanned fs k0"
  shows "\<forall>k. scanned fs k \<longrightarrow> \<not> in_band_window fs band k"
proof (intro allI impI notI)
  fix k
  assume s: "scanned fs k" and w: "in_band_window fs band k"
  from w f have gt: "js_lt (checkpoint k0) (checkpoint k)"
    and lt: "js_lt (checkpoint k) (checkpoint (Suc k0))"
    by (simp_all add: in_band_window_def to_number_def js_gt_def)
  show False
  proof (cases "k \<le> k0")
    case True
    from checkpoint_mono_scanned [OF b s0 True] obtain ci cj where
      "checkpoint k = Fin ci" "checkpoint k0 = Fin cj" "ci \<le> cj" by auto
    with gt show False by simp
  next
    case False
    then have "Suc k0 \<le> k" by simp
    from checkpoint_mono_scanned [OF b s this] obtain ci cj where
      "checkpoint (Suc k0) = Fin ci" "checkpoint k = Fin cj" "ci \<le> cj" by auto
    with lt show False by simp
  qed
qed

text \<open>
  The first checkpoints, as the counter holds them: the fifth is 117, and the tenth is just
  above 234. The ends of the windows of some bands, and the bins of some checkpoints: the
  quotient of the third checkpoint by the step is just below 3 and its bin is 3.
\<close>

lemma checkpoint_numeral:
  "checkpoint (numeral n) = dbl_add (checkpoint (pred_numeral n)) HERTZ_ITER"
  by (simp add: numeral_eq_Suc)

lemma checkpoint_values:
  "checkpoint (Suc 0) = Fin (3293257227514675 / 2 ^ 47)"
  "checkpoint 2 = Fin (3293257227514675 / 2 ^ 46)"
  "checkpoint 3 = Fin (1234971460318003 / 2 ^ 44)"
  "checkpoint 4 = Fin (3293257227514675 / 2 ^ 45)"
  "checkpoint 5 = Fin 117"
  "checkpoint 6 = Fin (4939885841272013 / 2 ^ 45)"
  "checkpoint 7 = Fin (2881600074075341 / 2 ^ 44)"
  "checkpoint 8 = Fin (6586514455029351 / 2 ^ 45)"
  "checkpoint 9 = Fin (1852457190477005 / 2 ^ 43)"
  "checkpoint 10 = Fin (8233143068786689 / 2 ^ 45)"
  "checkpoint 11 = Fin (4528228687832679 / 2 ^ 44)"
  "checkpoint 12 = Fin (4939885841272013 / 2 ^ 44)"
  "checkpoint 13 = Fin (5351542994711347 / 2 ^ 44)"
  "checkpoint 14 = Fin (5763200148150681 / 2 ^ 44)"
  "checkpoint 15 = Fin (6174857301590015 / 2 ^ 44)"
  "checkpoint 16 = Fin (6586514455029349 / 2 ^ 44)"
  "checkpoint 17 = Fin (6998171608468683 / 2 ^ 44)"
  "checkpoint 18 = Fin (7409828761908017 / 2 ^ 44)"
  "checkpoint 19 = Fin (7821485915347351 / 2 ^ 44)"
proof -
  show c1: "checkpoint (Suc 0) = Fin (3293257227514675 / 2 ^ 47)"
    by (simp add: dbl_add_def dbl_div_def HERTZ_ITER_eq step_def fl_def exponent_def pow2_def round_half_even_def Let_def log2_floor.simps)
  show c2: "checkpoint 2 = Fin (3293257227514675 / 2 ^ 46)"
    by (subst checkpoint_numeral) (simp add: c1 dbl_add_def dbl_div_def HERTZ_ITER_eq step_def fl_def exponent_def pow2_def round_half_even_def Let_def log2_floor.simps)
  show c3: "checkpoint 3 = Fin (1234971460318003 / 2 ^ 44)"
    by (subst checkpoint_numeral) (simp add: c2 dbl_add_def dbl_div_def HERTZ_ITER_eq step_def fl_def exponent_def pow2_def round_half_even_def Let_def log2_floor.simps)
  show c4: "checkpoint 4 = Fin (3293257227514675 / 2 ^ 45)"
    by (subst checkpoint_numeral) (simp add: c3 dbl_add_def dbl_div_def HERTZ_ITER_eq step_def fl_def exponent_def pow2_def round_half_even_def Let_def log2_floor.simps)
  show c5: "checkpoint 5 = Fin 117"
    by (subst checkpoint_numeral) (simp add: c4 dbl_add_def dbl_div_def HERTZ_ITER_eq step_def fl_def exponent_def pow2_def round_half_even_def Let_def log2_floor.simps)
  show c6: "checkpoint 6 = Fin (4939885841272013 / 2 ^ 45)"
    by (subst checkpoint_numeral) (simp add: c5 dbl_add_def dbl_div_def HERTZ_ITER_eq step_def fl_def exponent_def pow2_def round_half_even_def Let_def log2_floor.simps)
  show c7: "checkpoint 7 = Fin (2881600074075341 / 2 ^ 44)"
    by (subst checkpoint_numeral) (simp add: c6 dbl_add_def dbl_div_def HERTZ_ITER_eq step_def fl_def exponent_def pow2_def round_half_even_def Let_def log2_floor.simps)
  show c8: "checkpoint 8 = Fin (6586514455029351 / 2 ^ 45)"
    by (subst checkpoint_numeral) (simp add: c7 dbl_add_def dbl_div_def HERTZ_ITER_eq step_def fl_def exponent_def pow2_def round_half_even_def Let_def log2_floor.simps)
  show c9: "checkpoint 9 = Fin (1852457190477005 / 2 ^ 43)"
    by (subst checkpoint_numeral) (simp add: c8 dbl_add_def dbl_div_def HERTZ_ITER_eq step_def fl_def exponent_def pow2_def round_half_even_def Let_def log2_floor.simps)
  show c10: "checkpoint 10 = Fin (8233143068786689 / 2 ^ 45)"
    by (subst checkpoint_numeral) (simp add: c9 dbl_add_def dbl_div_def HERTZ_ITER_eq step_def fl_def exponent_def pow2_def round_half_even_def Let_def log2_floor.simps)
  show c11: "checkpoint 11 = Fin (4528228687832679 / 2 ^ 44)"
    by (subst checkpoint_numeral) (simp add: c10 dbl_add_def dbl_div_def HERTZ_ITER_eq step_def fl_def exponent_def pow2_def round_half_even_def Let_def log2_floor.simps)
  show c12: "checkpoint 12 = Fin (4939885841272013 / 2 ^ 44)"
    by (subst checkpoint_numeral) (simp add: c11 dbl_add_def dbl_div_def HERTZ_ITER_eq step_def fl_def exponent_def pow2_def round_half_even_def Let_def log2_floor.simps)
  show c13: "checkpoint 13 = Fin (5351542994711347 / 2 ^ 44)"
    by (subst checkpoint_numeral) (simp add: c12 dbl_add_def dbl_div_def HERTZ_ITER_eq step_def fl_def exponent_def pow2_def round_half_even_def Let_def log2_floor.simps)
  show c14: "checkpoint 14 = Fin (5763200148150681 / 2 ^ 44)"
    by (subst checkpoint_numeral) (simp add: c13 dbl_add_def dbl_div_def HERTZ_ITER_eq step_def fl_def exponent_def pow2_def round_half_even_def Let_def log2_floor.simps)
  show c15: "checkpoint 15 = Fin (6174857301590015 / 2 ^ 44)"
    by (subst checkpoint_numeral) (simp add: c14 dbl_add_def dbl_div_def HERTZ_ITER_eq step_def fl_def exponent_def pow2_def round_half_even_def Let_def log2_floor.simps)
  show c16: "checkpoint 16 = Fin (6586514455029349 / 2 ^ 44)"
    by (subst checkpoint_numeral) (simp add: c15 dbl_add_def dbl_div_def HERTZ_ITER_eq step_def fl_def exponent_def pow2_def round_half_even_def Let_def log2_floor.simps)
  show c17: "checkpoint 17 = Fin (6998171608468683 / 2 ^ 44)"
    by (subst checkpoint_numeral) (simp add: c16 dbl_add_def dbl_div_def HERTZ_ITER_eq step_def fl_def exponent_def pow2_def round_half_even_def Let_def log2_floor.simps)
  show c18: "checkpoint 18 = Fin (7409828761908017 / 2 ^ 44)"
    by (subst checkpoint_numeral) (simp add: c17 dbl_add_def dbl_div_def HERTZ_ITER_eq step_def fl_def exponent_def pow2_def round_half_even_def Let_def log2_floor.simps)
  show c19: "checkpoint 19 = Fin (7821485915347351 / 2 ^ 44)"
    by (subst checkpoint_numeral) (simp add: c18 dbl_add_def dbl_div_def HERTZ_ITER_eq step_def fl_def exponent_def pow2_def round_half_even_def Let_def log2_floor.simps)
qed

lemma window_ends:
  "dbl_add (Fin 0) HERTZ_ITER = Fin (3293257227514675 / 2 ^ 47)"
  "dbl_add (Fin 60) HERTZ_ITER = Fin (2934376632208589 / 2 ^ 45)"
  "dbl_add (Fin 61) HERTZ_ITER = Fin (2969561004297421 / 2 ^ 45)"
  "dbl_add (Fin 75) HERTZ_ITER = Fin (3462142213541069 / 2 ^ 45)"
  "dbl_add (Fin 100) HERTZ_ITER = Fin (4341751515761869 / 2 ^ 45)"
  "dbl_add (Fin 117) HERTZ_ITER = Fin (4939885841272013 / 2 ^ 45)"
  "dbl_add (Fin 200) HERTZ_ITER = Fin (7860188724645069 / 2 ^ 45)"
  "dbl_add (Fin 234) HERTZ_ITER = Fin (2264114343916339 / 2 ^ 43)"
  "dbl_add (Fin 400) HERTZ_ITER = Fin (3724265785602867 / 2 ^ 43)"
  by (simp_all add: dbl_add_def dbl_div_def HERTZ_ITER_eq step_def fl_def exponent_def pow2_def round_half_even_def Let_def log2_floor.simps)

lemma bins:
  "Math_round (dbl_div (checkpoint 3) HERTZ_ITER) = Fin 3"
  "Math_round (dbl_div (checkpoint 4) HERTZ_ITER) = Fin 4"
  "Math_round (dbl_div (checkpoint 10) HERTZ_ITER) = Fin 10"
  "Math_round (dbl_div (checkpoint 18) HERTZ_ITER) = Fin 18"
  by (simp_all add: checkpoint_values dbl_add_def dbl_div_def HERTZ_ITER_eq step_def fl_def exponent_def pow2_def round_half_even_def Let_def log2_floor.simps)

lemma upt_values:
  "[0..<4] = [0, Suc 0, 2, 3]"
  "[0..<5] = [0, Suc 0, 2, 3, 4]"
  "[0..<10] = [0, Suc 0, 2, 3, 4, 5, 6, 7, 8, 9]"
  "[0..<11] = [0, Suc 0, 2, 3, 4, 5, 6, 7, 8, 9, 10]"
  "[0..<19] = [0, Suc 0, 2, 3, 4, 5, 6, 7, 8, 9, 10, 11, 12, 13, 14, 15, 16, 17, 18]"
  by (simp_all add: upt_rec)

lemma bin_samples:
  "bin_sample data 3 = js_index data 3" "bin_sample data 4 = js_index data 4"
  "bin_sample data 10 = js_index data 10" "bin_sample data 18 = js_index data 18"
  by (simp_all add: bin_sample_def bins typed_array_get_def)



lemma close_bands_scan:
  "viz_bound [Fin 60, Fin 75] = Fin (3462142213541069 / 2 ^ 45)"
  "scan_end [Fin 60, Fin 75] 5"
  "checkpoint_scan [Fin 60, Fin 75] 0 [0..<5] = [3, 4]"
proof -
  show bound: "viz_bound [Fin 60, Fin 75] = Fin (3462142213541069 / 2 ^ 45)"
    by (simp add: viz_bound_def js_index_def to_number_def window_ends)
  show "scan_end [Fin 60, Fin 75] 5"
    unfolding scan_end_def bound upt_values
    by (simp add: checkpoint_values window_ends js_le_def)
  show "checkpoint_scan [Fin 60, Fin 75] 0 [0..<5] = [3, 4]"
    unfolding upt_values
    by (simp add: in_band_window_def js_index_def to_number_def js_gt_def window_ends
        checkpoint_values)
qed

lemma close_bands_example:
  "formatDataVizByFrequency Number_digits
     (two_bands\<lparr>equalizer := Some [(''60'', Fin 0), (''75'', Fin 0)]\<rparr>) data =
   Some [js_index data 3, js_index data 4]"
proof -
  let ?eq = "[(''60'', Fin 0), (''75'', Fin 0)]"
  let ?p = "two_bands\<lparr>equalizer := Some ?eq\<rparr>"
  have fs: "map Number_digits (map fst ?eq) = [Fin 60, Fin 75]"
    by (simp add: Number_digits_def digit_value_def)
  have h: "equalizer ?p = Some ?eq" by simp
  have "scan_end (map Number_digits (map fst ?eq)) 5"
    unfolding fs by (rule close_bands_scan)
  from formatDataVizByFrequency_scan [OF h this, of data, unfolded fs] show ?thesis
    by (simp only: close_bands_scan list.map bin_samples)
qed

lemma closer_bands_scan:
  "viz_bound [Fin 60, Fin 61] = Fin (2969561004297421 / 2 ^ 45)"
  "scan_end [Fin 60, Fin 61] 4"
  "checkpoint_scan [Fin 60, Fin 61] 0 [0..<4] = [3]"
proof -
  show bound: "viz_bound [Fin 60, Fin 61] = Fin (2969561004297421 / 2 ^ 45)"
    by (simp add: viz_bound_def js_index_def to_number_def window_ends)
  show "scan_end [Fin 60, Fin 61] 4"
    unfolding scan_end_def bound upt_values
    by (simp add: checkpoint_values window_ends js_le_def)
  show "checkpoint_scan [Fin 60, Fin 61] 0 [0..<4] = [3]"
    unfolding upt_values
    by (simp add: in_band_window_def js_index_def to_number_def js_gt_def window_ends
        checkpoint_values)
qed

lemma closer_bands_example:
  "formatDataVizByFrequency Number_digits
     (two_bands\<lparr>equalizer := Some [(''60'', Fin 0), (''61'', Fin 0)]\<rparr>) data =
   Some [js_index data 3]"
proof -
  let ?eq = "[(''60'', Fin 0), (''61'', Fin 0)]"
  let ?p = "two_bands\<lparr>equalizer := Some ?eq\<rparr>"
  have fs: "map Number_digits (map fst ?eq) = [Fin 60, Fin 61]"
    by (simp add: Number_digits_def digit_value_def)
  have h: "equalizer ?p = Some ?eq" by simp
  have "scan_end (map Number_digits (map fst ?eq)) 4"
    unfolding fs by (rule closer_bands_scan)
  from formatDataVizByFrequency_scan [OF h this, of data, unfolded fs] show ?thesis
    by (simp only: closer_bands_scan list.map bin_samples)
qed

lemma checkpoint_band_scan:
  "viz_bound [Fin 60, Fin 117, Fin 200] = Fin (7860188724645069 / 2 ^ 45)"
  "scan_end [Fin 60, Fin 117, Fin 200] 10"
  "checkpoint_scan [Fin 60, Fin 117, Fin 200] 0 [0..<10] = [3]"
proof -
  show bound: "viz_bound [Fin 60, Fin 117, Fin 200] = Fin (7860188724645069 / 2 ^ 45)"
    by (simp add: viz_bound_def js_index_def to_number_def window_ends)
  show "scan_end [Fin 60, Fin 117, Fin 200] 10"
    unfolding scan_end_def bound upt_values
    by (simp add: checkpoint_values window_ends js_le_def)
  show "checkpoint_scan [Fin 60, Fin 117, Fin 200] 0 [0..<10] = [3]"
    unfolding upt_values
    by (simp add: in_band_window_def js_index_def to_number_def js_gt_def window_ends
        checkpoint_values)
qed

lemma checkpoint_band_example:
  "formatDataVizByFrequency Number_digits
     (two_bands\<lparr>equalizer := Some [(''60'', Fin 0), (''117'', Fin 0), (''200'', Fin 0)]\<rparr>) data =
   Some [js_index data 3]"
proof -
  let ?eq = "[(''60'', Fin 0), (''117'', Fin 0), (''200'', Fin 0)]"
  let ?p = "two_bands\<lparr>equalizer := Some ?eq\<rparr>"
  have fs: "map Number_digits (map fst ?eq) = [Fin 60, Fin 117, Fin 200]"
    by (simp add: Number_digits_def digit_value_def)
  have h: "equalizer ?p = Some ?eq" by simp
  have "scan_end (map Number_digits (map fst ?eq)) 10"
    unfolding fs by (rule checkpoint_band_scan)
  from formatDataVizByFrequency_scan [OF h this, of data, unfolded fs] show ?thesis
    by (simp only: checkpoint_band_scan list.map bin_samples)
qed

lemma tenth_multiple_scan:
  "viz_bound [Fin 234] = Fin (2264114343916339 / 2 ^ 43)"
  "scan_end [Fin 234] 11"
  "checkpoint_scan [Fin 234] 0 [0..<11] = [10]"
proof -
  show bound: "viz_bound [Fin 234] = Fin (2264114343916339 / 2 ^ 43)"
    by (simp add: viz_bound_def js_index_def to_number_def window_ends)
  show "scan_end [Fin 234] 11"
    unfolding scan_end_def bound upt_values
    by (simp add: checkpoint_values window_ends js_le_def)
  show "checkpoint_scan [Fin 234] 0 [0..<11] = [10]"
    unfolding upt_values
    by (simp add: in_band_window_def js_index_def to_number_def js_gt_def window_ends
        checkpoint_values)
qed

lemma tenth_multiple_example:
  "formatDataVizByFrequency Number_digits
     (two_bands\<lparr>equalizer := Some [(''234'', Fin 0)]\<rparr>) data =
   Some [js_index data 10]"
proof -
  let ?eq = "[(''234'', Fin 0)]"
  let ?p = "two_bands\<lparr>equalizer := Some ?eq\<rparr>"
  have fs: "map Number_digits (map fst ?eq) = [Fin 234]"
    by (simp add: Number_digits_def digit_value_def)
  have h: "equalizer ?p = Some ?eq" by simp
  have "scan_end (map Number_digits (map fst ?eq)) 11"
    unfolding fs by (rule tenth_multiple_scan)
  from formatDataVizByFrequency_scan [OF h this, of data, unfolded fs] show ?thesis
    by (simp only: tenth_multiple_scan list.map bin_samples)
qed



text \<open>
  Claim C9, as stated: a band whose open window holds no checkpoint gets no value, nor
  does any band after it, and two configured frequencies within one step of each other are
  given as a case of it. That case fails: the bands 60 and 75 Hz are less than one step
  apart, the checkpoint number 4 lies in the window of the band 75 Hz, and the function
  returns a value for both bands.
\<close>

theorem formatDataVizByFrequency_close_bands_both_valued:
  "\<bar>75 - 60 :: real\<bar> < 23.4
   \<and> in_band_window [Fin 60, Fin 75] 1 4
   \<and> formatDataVizByFrequency Number_digits
       (two_bands\<lparr>equalizer := Some [(''60'', Fin 0), (''75'', Fin 0)]\<rparr>)
       [0, 1, 2, 3, 4, 5, 6, 7] = Some [Some 3, Some 4]"
  by (simp add: close_bands_example js_index_def in_band_window_def to_number_def js_gt_def
      window_ends checkpoint_values)

text \<open>
  Claim C9, amended. If no checkpoint that the loop scans lies in the open window
  \<open>(f, f + step)\<close> of a configured band, the sum taken in double precision, the cursor never
  moves past that band: whatever \<open>formatDataVizByFrequency\<close> returns has no value for that
  band nor for a later one (its length is at most the index of the band), and the function
  does return when the bound of the loop is not plus infinity and, if finite, is below
  \<open>2 ^ 52\<close>. A band whose frequency is a scanned checkpoint is such a band
  (\<open>checkpoint_frequency_no_checkpoint\<close>), as 117 Hz, the checkpoint number 5.
\<close>

theorem formatDataVizByFrequency_band_without_checkpoint:
  assumes "equalizer p = Some eq"
    and "band < length eq"
    and "\<forall>k. scanned (map toNumber (map fst eq)) k \<longrightarrow>
           \<not> in_band_window (map toNumber (map fst eq)) band k"
  shows "(\<forall>out. formatDataVizByFrequency toNumber p data = Some out \<longrightarrow> length out \<le> band)
    \<and> (viz_bound (map toNumber (map fst eq)) \<noteq> PosInf
          \<and> (\<forall>b. viz_bound (map toNumber (map fst eq)) = Fin b \<longrightarrow> b < 2 ^ 52) \<longrightarrow>
         (\<exists>out. formatDataVizByFrequency toNumber p data = Some out \<and> length out \<le> band))"
proof -
  let ?fs = "map toNumber (map fst eq)"
  have a: "\<forall>out. formatDataVizByFrequency toNumber p data = Some out \<longrightarrow> length out \<le> band"
  proof (intro allI impI)
    fix out
    assume "formatDataVizByFrequency toNumber p data = Some out"
    from formatDataVizByFrequency_returned [OF assms(1) this] obtain m where
      m: "scan_end ?fs m" and o: "out = map (bin_sample data) (checkpoint_scan ?fs 0 [0..<m])"
      by blast
    have "\<forall>k\<in>set [0..<m]. \<not> in_band_window ?fs band k"
      using scan_end_scanned [OF m] assms(3) by simp
    from checkpoint_scan_stuck [OF this, of 0] show "length out \<le> band"
      by (simp add: o)
  qed
  have b: "viz_bound ?fs \<noteq> PosInf \<and> (\<forall>b. viz_bound ?fs = Fin b \<longrightarrow> b < 2 ^ 52) \<longrightarrow>
         (\<exists>out. formatDataVizByFrequency toNumber p data = Some out \<and> length out \<le> band)"
    using formatDataVizByFrequency_returns [OF assms(1), of toNumber data] a by blast
  from a b show ?thesis by (rule conjI)
qed

theorem formatDataVizByFrequency_band_without_checkpoint_witness:
  "\<not> (\<exists>k. scanned [Fin 60, Fin 117, Fin 200] k \<and> in_band_window [Fin 60, Fin 117, Fin 200] 1 k)
   \<and> formatDataVizByFrequency Number_digits
       (two_bands\<lparr>equalizer := Some [(''60'', Fin 0), (''117'', Fin 0), (''200'', Fin 0)]\<rparr>)
       [0, 1, 2, 3, 4, 5, 6, 7] = Some [Some 3]
   \<and> length [Some (3 :: 8 word)] \<le> 1"
proof -
  let ?eq = "[(''60'', Fin 0), (''117'', Fin 0), (''200'', Fin 0)]"
  let ?p = "two_bands\<lparr>equalizer := Some ?eq\<rparr>"
  let ?fs = "[Fin 60, Fin 117, Fin 200]"
  let ?data = "[0, 1, 2, 3, 4, 5, 6, 7] :: 8 word list"
  have fs: "map Number_digits (map fst ?eq) = ?fs"
    by (simp add: Number_digits_def digit_value_def)
  have h: "equalizer ?p = Some ?eq" by simp
  have b: "1 < length ?eq" by simp
  have f: "js_index ?fs (int 1) = Some (checkpoint 5)"
    by (simp add: js_index_def checkpoint_values)
  have s: "scanned ?fs 5"
    by (rule scan_end_scanned [OF checkpoint_band_scan(2)]) simp
  have lt: "(7860188724645069 / 2 ^ 45 :: real) < 2 ^ 52" by simp
  have nw: "\<forall>k. scanned ?fs k \<longrightarrow> \<not> in_band_window ?fs 1 k"
    by (rule checkpoint_frequency_no_checkpoint [OF checkpoint_band_scan(1) lt f s])
  have nw': "\<forall>k. scanned (map Number_digits (map fst ?eq)) k \<longrightarrow>
      \<not> in_band_window (map Number_digits (map fst ?eq)) 1 k"
    unfolding fs by (rule nw)
  have out: "formatDataVizByFrequency Number_digits ?p ?data = Some [Some 3]"
    by (simp add: checkpoint_band_example js_index_def)
  from formatDataVizByFrequency_band_without_checkpoint [OF h b nw', of ?data,
      THEN conjunct1, rule_format, OF out]
  have "length [Some (3 :: 8 word)] \<le> 1" .
  moreover from nw have "\<not> (\<exists>k. scanned ?fs k \<and> in_band_window ?fs 1 k)" by blast
  ultimately show ?thesis using out by (intro conjI)
qed

section \<open>Transport and position\<close>

lemma effects_emit [simp]: "effects (emit es s) = effects s @ es"
  and filters_emit [simp]: "filters (emit es s) = filters s"
  and qValues_emit [simp]: "qValues (emit es s) = qValues s"
  and animationFrame_emit [simp]: "animationFrame (emit es s) = animationFrame s"
  by (simp_all add: emit_def)

lemma effects_setPlayerState:
  "effects (setPlayerState p s) = effects s @
     (if playStatus p = Some ''PAUSED''
      then AudioPause # (if frame_truthy (animationFrame s) then [CancelAnimationFrame (animationFrame s)] else [])
      else if playStatus p = Some ''STOPPED''
      then AudioPause # (if frame_truthy (animationFrame s) then [CancelAnimationFrame (animationFrame s)] else [])
             @ [SetCurrentTime (Fin 0)]
      else [AudioPlay])"
  by (simp add: setPlayerState_def pause_def stop_def play_def Let_def)

lemma chain_setPlayerState:
  "filters (setPlayerState p s) = filters s" "qValues (setPlayerState p s) = qValues s"
  by (simp_all add: setPlayerState_def pause_def stop_def play_def Let_def)

lemma effects_updatePosition:
  "effects (updatePosition p prev s) = effects s @
     (case position p of
        None \<Rightarrow> []
      | Some pos \<Rightarrow>
          (if truthy pos \<and> (js_lt pos (default_number (Fin 0) (position prev)) \<or>
                js_gt (js_sub pos (default_number (Fin 0) (position prev))) (Fin 1))
           then [SetCurrentTime pos] else []))"
  by (simp add: updatePosition_def shouldUpdatePosition_def setPosition_def Let_def split: option.splits)

text \<open>
  Claim C6. For every play status and from every state, \<open>setPlayerState\<close> sends the
  audio element: for \<open>PAUSED\<close> a pause only; for \<open>STOPPED\<close> a pause, then the position
  set to zero; for \<open>PLAYING\<close>, for any other string and for no status a play.
\<close>

theorem setPlayerState_transport_commands:
  "transport_commands (effects (setPlayerState p s)) =
     transport_commands (effects s) @
       (if playStatus p = Some ''PAUSED'' then [AudioPause]
        else if playStatus p = Some ''STOPPED'' then [AudioPause, SetCurrentTime (Fin 0)]
        else [AudioPlay])"
  by (simp add: effects_setPlayerState transport_commands_def)

theorem setPlayerState_transport_commands_witness:
  "transport_commands (effects (setPlayerState (two_bands\<lparr>playStatus := Some ''STOPPED''\<rparr>) new_sound))
     = [AudioPause, SetCurrentTime (Fin 0)]
   \<and> transport_commands (effects (setPlayerState (two_bands\<lparr>playStatus := Some ''PAUSED''\<rparr>) new_sound))
     = [AudioPause]
   \<and> transport_commands (effects (setPlayerState (two_bands\<lparr>playStatus := Some ''LOOPING''\<rparr>) new_sound))
     = [AudioPlay]"
  using setPlayerState_transport_commands [of "two_bands\<lparr>playStatus := Some ''STOPPED''\<rparr>" new_sound]
    setPlayerState_transport_commands [of "two_bands\<lparr>playStatus := Some ''PAUSED''\<rparr>" new_sound]
    setPlayerState_transport_commands [of "two_bands\<lparr>playStatus := Some ''LOOPING''\<rparr>" new_sound]
  by (simp add: new_sound_def transport_commands_def)




section \<open>The gain patch\<close>

text \<open>
  The \<open>forEach\<close> of the patch changes the gain of the filters it reaches and nothing else
  of the chain; it returns when every index it visits is inside \<open>this.filters\<close> and throws
  at the first index past the end.
\<close>

lemma patchGains_filters:
  "length (filters (state_of (patchGains pre vs idx s))) = length (filters s) \<and>
   (\<forall>i<length (filters s). filters (state_of (patchGains pre vs idx s)) ! i =
      (if idx \<le> i \<and> i < idx + length vs
       then (filters s ! i)\<lparr>gain := js_add (vs ! (i - idx)) pre\<rparr>
       else filters s ! i))"
proof (induction vs arbitrary: idx s)
  case Nil
  show ?case by auto
next
  case (Cons v vs)
  show ?case
  proof (cases "idx < length (filters s)")
    case False
    then show ?thesis by auto
  next
    case True
    let ?s1 = "s\<lparr>filters := (filters s)[idx := (filters s ! idx)\<lparr>gain := js_add v pre\<rparr>],
                effects := effects s @ [SetFilterGain idx (js_add v pre)]\<rparr>"
    have step: "patchGains pre (v # vs) idx s = patchGains pre vs (idx + 1) ?s1"
      using True by simp
    have len1: "length (filters ?s1) = length (filters s)" by simp
    note IH = Cons.IH [of "idx + 1" ?s1]
    have "length (filters (state_of (patchGains pre (v # vs) idx s))) = length (filters s)"
      using IH step by simp
    moreover have "filters (state_of (patchGains pre (v # vs) idx s)) ! i =
          (if idx \<le> i \<and> i < idx + length (v # vs)
           then (filters s ! i)\<lparr>gain := js_add ((v # vs) ! (i - idx)) pre\<rparr>
           else filters s ! i)" if i: "i < length (filters s)" for i
    proof -
      have a: "filters (state_of (patchGains pre (v # vs) idx s)) ! i =
          (if idx + 1 \<le> i \<and> i < idx + 1 + length vs
           then (filters ?s1 ! i)\<lparr>gain := js_add (vs ! (i - (idx + 1))) pre\<rparr>
           else filters ?s1 ! i)"
        using IH i step by simp
      show ?thesis
      proof (cases "i = idx")
        case True
        then show ?thesis using a i by simp
      next
        case False
        then show ?thesis using a i by (auto simp add: nth_Cons')
      qed
    qed
    ultimately show ?thesis by blast
  qed
qed

lemma patchGains_other:
  "qValues (state_of (patchGains pre vs idx s)) = qValues s \<and>
   animationFrame (state_of (patchGains pre vs idx s)) = animationFrame s \<and>
   filter is_connect (effects (state_of (patchGains pre vs idx s))) = filter is_connect (effects s)"
  by (induction vs arbitrary: idx s) simp_all

lemma patchGains_Returned:
  "idx + length vs \<le> length (filters s) \<Longrightarrow> \<exists>s'. patchGains pre vs idx s = Returned s'"
  by (induction vs arbitrary: idx s) simp_all

lemma patchGains_Thrown:
  "idx \<le> length (filters s) \<Longrightarrow> length (filters s) < idx + length vs \<Longrightarrow>
   \<exists>s'. patchGains pre vs idx s = Thrown (TypeError (length (filters s))) s'"
proof (induction vs arbitrary: idx s)
  case Nil
  then show ?case by simp
next
  case (Cons v vs)
  show ?case
  proof (cases "idx < length (filters s)")
    case True
    let ?s1 = "s\<lparr>filters := (filters s)[idx := (filters s ! idx)\<lparr>gain := js_add v pre\<rparr>],
                effects := effects s @ [SetFilterGain idx (js_add v pre)]\<rparr>"
    have "\<exists>s'. patchGains pre vs (idx + 1) ?s1 = Thrown (TypeError (length (filters ?s1))) s'"
      using True Cons.prems by (intro Cons.IH) simp_all
    then show ?thesis using True by simp
  next
    case False
    with Cons.prems have "idx = length (filters s)" by simp
    then show ?thesis by simp
  qed
qed

lemma updateEqualizer_frame:
  "length (filters (state_of (updateEqualizer toString p prev s))) = length (filters s)
   \<and> map type (filters (state_of (updateEqualizer toString p prev s))) = map type (filters s)
   \<and> map frequency (filters (state_of (updateEqualizer toString p prev s))) = map frequency (filters s)
   \<and> map Q (filters (state_of (updateEqualizer toString p prev s))) = map Q (filters s)
   \<and> qValues (state_of (updateEqualizer toString p prev s)) = qValues s
   \<and> connections (state_of (updateEqualizer toString p prev s)) = connections s"
proof (cases "shouldUpdateEqualizer toString p prev")
  case False
  then show ?thesis by (simp add: updateEqualizer_def)
next
  case True
  let ?pre = "default_number (Fin 0) (preAmp p)"
  let ?s' = "state_of (patchGains ?pre (new_values p) 0 s)"
  have u: "state_of (updateEqualizer toString p prev s) = ?s'"
    using True by (simp add: updateEqualizer_def new_values_def)
  have len: "length (filters ?s') = length (filters s)"
    using patchGains_filters [of ?pre "new_values p" 0 s] by simp
  have nth: "\<And>i. i < length (filters s) \<Longrightarrow> filters ?s' ! i =
      (if i < length (new_values p)
       then (filters s ! i)\<lparr>gain := js_add (new_values p ! i) ?pre\<rparr> else filters s ! i)"
    using patchGains_filters [of ?pre "new_values p" 0 s] by simp
  have t: "map type (filters ?s') = map type (filters s)"
    using len by (intro nth_equalityI) (simp_all add: nth)
  have f: "map frequency (filters ?s') = map frequency (filters s)"
    using len by (intro nth_equalityI) (simp_all add: nth)
  have q: "map Q (filters ?s') = map Q (filters s)"
    using len by (intro nth_equalityI) (simp_all add: nth)
  show ?thesis
    using len t f q patchGains_other [of ?pre "new_values p" 0 s]
    by (simp add: u connections_def)
qed

lemma updateEqualizer_gains:
  assumes "shouldUpdateEqualizer toString p prev" and "idx < length (filters s)"
  shows "gain (filters (state_of (updateEqualizer toString p prev s)) ! idx) =
     (if idx < length (new_values p)
      then js_add (new_values p ! idx) (default_number (Fin 0) (preAmp p))
      else gain (filters s ! idx))"
  using assms patchGains_filters [of "default_number (Fin 0) (preAmp p)" "new_values p" 0 s]
  by (simp add: updateEqualizer_def new_values_def)

lemma filters_componentDidMount:
  "filters (componentDidMount ctx N p s) = filters (snd (createFilterNodes ctx N p (emit [Connect SourceNode GainNode] s)))"
  by (simp add: componentDidMount_def Let_def setStereoPan_def setVolume_def chain_setPlayerState)

lemma mounted_two_bands_state:
  "mounted_two_bands =
     \<lparr>filters = [\<lparr>type = lowshelf, frequency = Fin 60, gain = Fin 0, Q = Fin 1\<rparr>,
                 \<lparr>type = highshelf, frequency = Fin 100, gain = Fin 0, Q = Fin 1\<rparr>],
      qValues = [None, None],
      animationFrame = None,
      effects = [Connect SourceNode GainNode, Connect GainNode (FilterNode 0),
                 Connect (FilterNode 0) (FilterNode 1), Connect (FilterNode 1) AnalyserNode,
                 Connect AnalyserNode StereoPannerNode, Connect StereoPannerNode Destination,
                 SetGainValue (Fin (4 / 5)), AudioPlay, SetPanValue (Fin 0)]\<rparr>"
  by (simp add: mounted_two_bands_def componentDidMount_def createFilterNodes_def two_bands_def
      new_sound_def emit_def Let_def upt_rec add_filter_def configure_def qValue_def
      example_context_def Number_digits_examples prop_get_def to_number_def default_number_def
      setVolume_def setPlayerState_def play_def setStereoPan_def truthy_def)

lemma toString_integer_examples:
  "toString_integer (Fin 0) = ''0''" "toString_integer (Fin 2) = ''2''"
  "toString_integer (Fin 4) = ''4''"
  by (simp_all add: toString_integer_def digit_char_def)

text \<open>
  Claim C4, as stated: on every update detected as a change of the equalizer or of the
  pre-amp, the patch sets the gain of each stage, by index, to the new gain plus the
  pre-amp. It fails when the new equalizer has fewer entries than the chain has stages.
  Mounted with four bands of gains 0, 3, 0 and 0 and updated to an equalizer of two entries
  with the gains 1 and 2 and the pre-amp 5, the instance has the gains 6, 7, 0 and 0: the
  last two stages are not set. Updated to no equalizer and the pre-amp 5, which is
  detected as a change too, it keeps the gains 0, 3, 0 and 0.
\<close>

lemma mounted_four_bands_filters:
  "filters mounted_four_bands =
     [\<lparr>type = lowshelf, frequency = Fin 60, gain = Fin 0, Q = Fin 1\<rparr>,
      \<lparr>type = peaking, frequency = Fin 170, gain = Fin 3, Q = Fin (34 / 25)\<rparr>,
      \<lparr>type = peaking, frequency = Fin 310, gain = Fin 0, Q = Fin (62 / 43)\<rparr>,
      \<lparr>type = highshelf, frequency = Fin 600, gain = Fin 0, Q = Fin 1\<rparr>]"
  by (simp add: mounted_four_bands_def filters_componentDidMount createFilterNodes_def
      four_bands_def two_bands_def new_sound_def emit_def Let_def upt_rec add_filter_def
      configure_def qValue_def example_context_def Number_digits_examples prop_get_def
      to_number_def default_number_def js_sub_def qValue_at_def js_index_def)

theorem updateEqualizer_fewer_entries_keeps_gains:
  "shouldUpdateEqualizer toString_integer
      (four_bands\<lparr>equalizer := Some [(''60'', Fin 1), (''170'', Fin 2)], preAmp := Some (Fin 5)\<rparr>)
      four_bands
   \<and> map gain (filters mounted_four_bands) = [Fin 0, Fin 3, Fin 0, Fin 0]
   \<and> map gain (filters (state_of (updateEqualizer toString_integer
        (four_bands\<lparr>equalizer := Some [(''60'', Fin 1), (''170'', Fin 2)], preAmp := Some (Fin 5)\<rparr>)
        four_bands mounted_four_bands))) = [Fin 6, Fin 7, Fin 0, Fin 0]
   \<and> shouldUpdateEqualizer toString_integer
        (four_bands\<lparr>equalizer := None, preAmp := Some (Fin 5)\<rparr>) four_bands
   \<and> map gain (filters (state_of (updateEqualizer toString_integer
        (four_bands\<lparr>equalizer := None, preAmp := Some (Fin 5)\<rparr>)
        four_bands mounted_four_bands))) = [Fin 0, Fin 3, Fin 0, Fin 0]"
proof -
  let ?p = "four_bands\<lparr>equalizer := Some [(''60'', Fin 1), (''170'', Fin 2)], preAmp := Some (Fin 5)\<rparr>"
  let ?q = "four_bands\<lparr>equalizer := None, preAmp := Some (Fin 5)\<rparr>"
  have a: "shouldUpdateEqualizer toString_integer ?p four_bands"
    by (simp add: shouldUpdateEqualizer_def four_bands_def two_bands_def strict_eq_def)
  have b: "shouldUpdateEqualizer toString_integer ?q four_bands"
    by (simp add: shouldUpdateEqualizer_def four_bands_def two_bands_def strict_eq_def)
  have c: "map gain (filters mounted_four_bands) = [Fin 0, Fin 3, Fin 0, Fin 0]"
    by (simp add: mounted_four_bands_filters)
  have d: "map gain (filters (state_of (updateEqualizer toString_integer ?p four_bands
        mounted_four_bands))) = [Fin 6, Fin 7, Fin 0, Fin 0]"
    using a by (simp add: updateEqualizer_def default_number_def mounted_four_bands_filters)
  have e: "map gain (filters (state_of (updateEqualizer toString_integer ?q four_bands
        mounted_four_bands))) = [Fin 0, Fin 3, Fin 0, Fin 0]"
    using b by (simp add: updateEqualizer_def default_number_def mounted_four_bands_filters)
  from a c d b e show ?thesis by (intro conjI)
qed

text \<open>
  Claim C4, amended. For every update detected as a change of the equalizer or of the
  pre-amp (\<open>shouldUpdateEqualizer\<close>), the patch leaves the number of stages and the kind,
  frequency and Q of every stage unchanged, and sets the gain of the stage at each index
  \<open>idx\<close> that has a new value to exactly that value plus the pre-amp; a stage without a
  new value keeps its gain, so the gain of every stage is set when the new equalizer has as
  many entries as the chain has stages. This holds of the state the patch leaves, whether
  it returns or throws.
\<close>

theorem updateEqualizer_gain_only:
  assumes "shouldUpdateEqualizer toString p prev"
  shows "length (filters (state_of (updateEqualizer toString p prev s))) = length (filters s)
   \<and> map type (filters (state_of (updateEqualizer toString p prev s))) = map type (filters s)
   \<and> map frequency (filters (state_of (updateEqualizer toString p prev s))) = map frequency (filters s)
   \<and> map Q (filters (state_of (updateEqualizer toString p prev s))) = map Q (filters s)
   \<and> (\<forall>idx. idx < length (new_values p) \<and> idx < length (filters s) \<longrightarrow>
        gain (filters (state_of (updateEqualizer toString p prev s)) ! idx) =
          js_add (new_values p ! idx) (default_number (Fin 0) (preAmp p)))
   \<and> (\<forall>idx. length (new_values p) \<le> idx \<and> idx < length (filters s) \<longrightarrow>
        gain (filters (state_of (updateEqualizer toString p prev s)) ! idx) = gain (filters s ! idx))
   \<and> (length (new_values p) = length (filters s) \<longrightarrow>
        map gain (filters (state_of (updateEqualizer toString p prev s))) =
          map (\<lambda>v. js_add v (default_number (Fin 0) (preAmp p))) (new_values p))"
proof -
  let ?s' = "state_of (updateEqualizer toString p prev s)"
  note fr = updateEqualizer_frame [of toString p prev s]
  note g = updateEqualizer_gains [OF assms, of _ s]
  have len: "length (filters ?s') = length (filters s)" using fr by simp
  have all: "map gain (filters ?s') =
          map (\<lambda>v. js_add v (default_number (Fin 0) (preAmp p))) (new_values p)"
    if "length (new_values p) = length (filters s)"
    using that len by (intro nth_equalityI) (simp_all add: g)
  show ?thesis
    using fr g all by simp
qed

theorem updateEqualizer_gain_only_witness:
  "shouldUpdateEqualizer toString_integer
      (two_bands\<lparr>equalizer := Some [(''60'', Fin 2), (''100'', Fin 4)], preAmp := Some (Fin 1)\<rparr>)
      two_bands
   \<and> map gain (filters (state_of (updateEqualizer toString_integer
        (two_bands\<lparr>equalizer := Some [(''60'', Fin 2), (''100'', Fin 4)], preAmp := Some (Fin 1)\<rparr>)
        two_bands mounted_two_bands))) = [Fin 3, Fin 5]
   \<and> map type (filters (state_of (updateEqualizer toString_integer
        (two_bands\<lparr>equalizer := Some [(''60'', Fin 2), (''100'', Fin 4)], preAmp := Some (Fin 1)\<rparr>)
        two_bands mounted_two_bands))) = [lowshelf, highshelf]"
proof -
  let ?p = "two_bands\<lparr>equalizer := Some [(''60'', Fin 2), (''100'', Fin 4)], preAmp := Some (Fin 1)\<rparr>"
  let ?fs = "filters (state_of (updateEqualizer toString_integer ?p two_bands mounted_two_bands))"
  have h: "shouldUpdateEqualizer toString_integer ?p two_bands"
    by (simp add: shouldUpdateEqualizer_def two_bands_def strict_eq_def)
  have fm: "filters mounted_two_bands =
     [\<lparr>type = lowshelf, frequency = Fin 60, gain = Fin 0, Q = Fin 1\<rparr>,
      \<lparr>type = highshelf, frequency = Fin 100, gain = Fin 0, Q = Fin 1\<rparr>]"
    by (simp add: mounted_two_bands_state)
  have nv: "new_values ?p = [Fin 2, Fin 4]" and pre: "default_number (Fin 0) (preAmp ?p) = Fin 1"
    by (simp_all add: new_values_def default_number_def)
  note t = updateEqualizer_gain_only [OF h, of mounted_two_bands]
  from t have len: "length ?fs = 2" by (simp add: fm)
  from t have ty: "map type ?fs = [lowshelf, highshelf]" by (simp add: fm)
  from t have g: "\<forall>idx. idx < length (new_values ?p) \<and> idx < length (filters mounted_two_bands) \<longrightarrow>
        gain (?fs ! idx) = js_add (new_values ?p ! idx) (default_number (Fin 0) (preAmp ?p))"
    by blast
  have "gain (?fs ! 0) = js_add (new_values ?p ! 0) (default_number (Fin 0) (preAmp ?p))"
    and "gain (?fs ! 1) = js_add (new_values ?p ! 1) (default_number (Fin 0) (preAmp ?p))"
    by (rule g [rule_format], simp add: fm nv)+
  then have "gain (?fs ! 0) = Fin 3" "gain (?fs ! 1) = Fin 5"
    by (simp_all only: nv pre) simp_all
  then have "map gain ?fs = [Fin 3, Fin 5]"
    using len by (auto simp add: list_eq_iff_nth_eq less_Suc_eq numeral_2_eq_2)
  with h ty show ?thesis by simp
qed

text \<open>
  Claim C10. The patch indexes \<open>this.filters\<close> by the position of the new equalizer's
  entries, without a bounds guard. The chain built at construction has one filter per entry
  of the equalizer given then. When the new equalizer has at most as many entries as the
  chain has filters, every index the patch reads is valid and the patch returns; when an
  update is detected and the new equalizer has more entries, the patch reads the index just
  past the end of the list, where reading \<open>gain\<close> of \<open>undefined\<close> throws.
\<close>

theorem updateEqualizer_filter_index:
  "length (filters (componentDidMount ctx toNumber p0 new_sound)) = length (new_values p0)
   \<and> (length (new_values p) \<le> length (filters s) \<longrightarrow>
        (\<exists>s'. updateEqualizer toString p prev s = Returned s'))
   \<and> (shouldUpdateEqualizer toString p prev \<and> length (filters s) < length (new_values p) \<longrightarrow>
        (\<exists>s'. updateEqualizer toString p prev s = Thrown (TypeError (length (filters s))) s'))"
proof (intro conjI impI)
  show "length (filters (componentDidMount ctx toNumber p0 new_sound)) = length (new_values p0)"
    by (simp add: filters_componentDidMount length_filters_createFilterNodes new_sound_def)
next
  assume "length (new_values p) \<le> length (filters s)"
  then show "\<exists>s'. updateEqualizer toString p prev s = Returned s'"
    using patchGains_Returned [of 0 "new_values p" s "default_number (Fin 0) (preAmp p)"]
    by (simp add: updateEqualizer_def new_values_def)
next
  assume "shouldUpdateEqualizer toString p prev \<and> length (filters s) < length (new_values p)"
  then show "\<exists>s'. updateEqualizer toString p prev s = Thrown (TypeError (length (filters s))) s'"
    using patchGains_Thrown [of 0 s "new_values p" "default_number (Fin 0) (preAmp p)"]
    by (simp add: updateEqualizer_def new_values_def)
qed

theorem updateEqualizer_filter_index_witness:
  "length (filters mounted_two_bands) = 2
   \<and> (\<exists>s'. updateEqualizer toString_integer
          (two_bands\<lparr>equalizer := Some [(''60'', Fin 2), (''100'', Fin 4)]\<rparr>)
          two_bands mounted_two_bands = Returned s')
   \<and> (\<exists>s'. updateEqualizer toString_integer
          (two_bands\<lparr>equalizer := Some [(''60'', Fin 0), (''100'', Fin 0), (''200'', Fin 0)]\<rparr>)
          two_bands mounted_two_bands = Thrown (TypeError 2) s')"
proof -
  let ?p2 = "two_bands\<lparr>equalizer := Some [(''60'', Fin 2), (''100'', Fin 4)]\<rparr>"
  let ?p3 = "two_bands\<lparr>equalizer := Some [(''60'', Fin 0), (''100'', Fin 0), (''200'', Fin 0)]\<rparr>"
  have len: "length (filters mounted_two_bands) = 2"
    using updateEqualizer_filter_index [of example_context Number_digits two_bands,
        THEN conjunct1]
    by (simp add: mounted_two_bands_def new_values_def two_bands_def)
  have a: "length (new_values ?p2) \<le> length (filters mounted_two_bands)"
    by (simp add: len new_values_def)
  have b: "shouldUpdateEqualizer toString_integer ?p3 two_bands
      \<and> length (filters mounted_two_bands) < length (new_values ?p3)"
    by (simp add: len new_values_def shouldUpdateEqualizer_def two_bands_def
        entries_toString_def toString_integer_examples)
  from updateEqualizer_filter_index [of example_context Number_digits two_bands ?p2
      mounted_two_bands toString_integer two_bands, THEN conjunct2, THEN conjunct1, rule_format, OF a]
  have r: "\<exists>s'. updateEqualizer toString_integer ?p2 two_bands mounted_two_bands = Returned s'" .
  from updateEqualizer_filter_index [of example_context Number_digits two_bands ?p3
      mounted_two_bands toString_integer two_bands, THEN conjunct2, THEN conjunct2, rule_format, OF b]
  have "\<exists>s'. updateEqualizer toString_integer ?p3 two_bands mounted_two_bands
      = Thrown (TypeError (length (filters mounted_two_bands))) s'" .
  then have th: "\<exists>s'. updateEqualizer toString_integer ?p3 two_bands mounted_two_bands
      = Thrown (TypeError 2) s'"
    by (simp only: len)
  from len r th show ?thesis by (intro conjI)
qed

section \<open>A whole update\<close>

text \<open>
  Every rule of \<open>componentDidUpdate\<close> before the patch leaves the chain as it is, and the
  update returns unless the loop of a sampling tick it starts does not end.
\<close>

lemma same_chain_refl: "same_chain s s"
  by (simp add: same_chain_def)

lemma same_chain_trans: "same_chain s s1 \<Longrightarrow> same_chain s1 s2 \<Longrightarrow> same_chain s s2"
  by (simp add: same_chain_def)

lemma same_chain_emit: "\<forall>e\<in>set es. \<not> is_connect e \<Longrightarrow> same_chain s (emit es s)"
  by (simp add: same_chain_def connections_def)

lemma same_chain_setVolume: "same_chain s (setVolume p s)"
  by (simp add: setVolume_def same_chain_emit)

lemma same_chain_setStereoPan: "same_chain s (setStereoPan p s)"
  by (simp add: setStereoPan_def same_chain_emit)

lemma same_chain_setPlayerState: "same_chain s (setPlayerState p s)"
  by (simp add: same_chain_def connections_def chain_setPlayerState effects_setPlayerState)

lemma same_chain_updatePosition: "same_chain s (updatePosition p prev s)"
  by (simp add: same_chain_def connections_def effects_updatePosition updatePosition_def
      setPosition_def split: option.splits)

lemma same_chain_handleVisualizationChange:
  "handleVisualizationChange N frame bins p s = Some s' \<Longrightarrow> same_chain s s'"
  by (auto simp add: handleVisualizationChange_def Let_def same_chain_def connections_def
      split: if_splits)

lemma componentDidUpdate_steps:
  assumes "componentDidUpdate toString N frame bins p prev s = Some out"
  shows "\<exists>s6. same_chain s s6 \<and> out = updateEqualizer toString p prev s6"
proof -
  define s1 where "s1 = (if \<not> strict_eq (volume p) (volume prev) then setVolume p s else s)"
  define s2 where "s2 = updatePosition p prev s1"
  define s3 where "s3 = (if playStatus p \<noteq> playStatus prev then setPlayerState p s2 else s2)"
  define s4 where "s4 = (if \<not> strict_eq (Some (default_number (Fin 0) (stereoPan p))) (stereoPan prev)
                then setStereoPan p s3 else s3)"
  have c1: "same_chain s s1" by (simp add: s1_def same_chain_refl same_chain_setVolume)
  have c2: "same_chain s1 s2" by (simp add: s2_def same_chain_updatePosition)
  have c3: "same_chain s2 s3" by (simp add: s3_def same_chain_refl same_chain_setPlayerState)
  have c4: "same_chain s3 s4" by (simp add: s4_def same_chain_refl same_chain_setStereoPan)
  have c04: "same_chain s s4"
    using c1 c2 c3 c4 by (blast intro: same_chain_trans)
  from assms obtain s5 where
    s5: "(if \<not> onVisualizationChange prev \<and> onVisualizationChange p \<and> equalizer p \<noteq> None
               then handleVisualizationChange N frame bins p s4
               else Some s4) = Some s5"
    and out: "out = updateEqualizer toString p prev
       (if onVisualizationChange prev \<and> \<not> onVisualizationChange p
        then emit [CancelAnimationFrame (animationFrame s5)] s5 else s5)"
    unfolding componentDidUpdate_def Let_def s1_def s2_def s3_def s4_def
    by (auto split: option.splits)
  have c5: "same_chain s4 s5"
    using s5 by (auto split: if_splits intro: same_chain_handleVisualizationChange same_chain_refl)
  have c6: "same_chain s5 (if onVisualizationChange prev \<and> \<not> onVisualizationChange p
        then emit [CancelAnimationFrame (animationFrame s5)] s5 else s5)"
    by (simp add: same_chain_refl same_chain_emit)
  from c04 c5 c6 out show ?thesis
    by (blast intro: same_chain_trans)
qed

lemma componentDidUpdate_returns:
  assumes "\<forall>eq. equalizer p = Some eq \<longrightarrow>
     viz_bound (map N (map fst eq)) \<noteq> PosInf
     \<and> (\<forall>b. viz_bound (map N (map fst eq)) = Fin b \<longrightarrow> b < 2 ^ 52)"
  shows "\<exists>out. componentDidUpdate toString N frame bins p prev s = Some out"
proof -
  have "\<exists>s'. handleVisualizationChange N frame bins p s0 = Some s'" for s0
  proof (cases "equalizer p")
    case None
    then show ?thesis
      by (simp add: handleVisualizationChange_def Let_def formatDataVizByFrequency_def)
  next
    case (Some eq)
    with assms have a: "viz_bound (map N (map fst eq)) \<noteq> PosInf"
      and b: "\<forall>b. viz_bound (map N (map fst eq)) = Fin b \<longrightarrow> b < 2 ^ 52"
      by simp_all
    from formatDataVizByFrequency_returns [OF Some a b, of bins] show ?thesis
      by (auto simp add: handleVisualizationChange_def Let_def)
  qed
  note hv = this
  define s4 where "s4 =
     (let s1 = (if \<not> strict_eq (volume p) (volume prev) then setVolume p s else s);
          s2 = updatePosition p prev s1;
          s3 = (if playStatus p \<noteq> playStatus prev then setPlayerState p s2 else s2)
      in if \<not> strict_eq (Some (default_number (Fin 0) (stereoPan p))) (stereoPan prev)
         then setStereoPan p s3 else s3)"
  have unfold: "componentDidUpdate toString N frame bins p prev s =
     (case (if \<not> onVisualizationChange prev \<and> onVisualizationChange p \<and> equalizer p \<noteq> None
            then handleVisualizationChange N frame bins p s4 else Some s4) of
        None \<Rightarrow> None
      | Some s5 \<Rightarrow>
          Some (updateEqualizer toString p prev
            (if onVisualizationChange prev \<and> \<not> onVisualizationChange p
             then emit [CancelAnimationFrame (animationFrame s5)] s5 else s5)))"
    unfolding componentDidUpdate_def s4_def Let_def by (rule refl)
  from hv [of s4] obtain s' where "handleVisualizationChange N frame bins p s4 = Some s'"
    by blast
  then show ?thesis
    unfolding unfold by (cases "\<not> onVisualizationChange prev \<and> onVisualizationChange p \<and> equalizer p \<noteq> None") simp_all
qed

text \<open>
  Claim C3, as stated: an update whose new equalizer has other keys than the previous one
  rebuilds the chain instead of patching gains in place. It fails: nothing in
  \<open>componentDidUpdate\<close> calls \<open>createFilterNodes\<close>. Mounted with the keys 60 and 100 and
  updated to the keys 60 and 400, the instance keeps its two filters at 60 and 100 Hz, makes
  no connection, and only sets the two gains by index.
\<close>

theorem componentDidUpdate_retuned_keeps_chain:
  "map fst [(''60'', Fin 2 :: number), (''400'', Fin 4)] \<noteq> map fst [(''60'', Fin 0 :: number), (''100'', Fin 0)]
   \<and> componentDidUpdate toString_integer Number_digits 1 []
        (two_bands\<lparr>equalizer := Some [(''60'', Fin 2), (''400'', Fin 4)]\<rparr>) two_bands
        mounted_two_bands =
      Some (Returned (mounted_two_bands
        \<lparr>filters := [\<lparr>type = lowshelf, frequency = Fin 60, gain = Fin 2, Q = Fin 1\<rparr>,
                     \<lparr>type = highshelf, frequency = Fin 100, gain = Fin 4, Q = Fin 1\<rparr>],
         effects := effects mounted_two_bands @ [SetFilterGain 0 (Fin 2), SetFilterGain 1 (Fin 4)]\<rparr>))"
  by (simp add: componentDidUpdate_def Let_def updatePosition_def shouldUpdatePosition_def
      two_bands_def strict_eq_def default_number_def updateEqualizer_def
      shouldUpdateEqualizer_def entries_toString_def toString_integer_examples
      mounted_two_bands_state)

text \<open>
  Claim C3, amended. No configuration update rebuilds the filter chain, whatever the
  change of the frequency set: the update completes whenever the bound of the sampling loop
  is not plus infinity and, if finite, is below \<open>2 ^ 52\<close>, and when it completes (returning or throwing) the number of stages,
  the kind, frequency and Q of every stage, the stored Q values and the connections are those
  from before the update. When both equalizers are given and their serialised entries
  differ, the update patches in place: the stage at every index that has a new entry gets
  the gain of that entry plus the pre-amp.
\<close>

theorem componentDidUpdate_never_rebuilds:
  "((\<forall>eq. equalizer p = Some eq \<longrightarrow>
        viz_bound (map toNumber (map fst eq)) \<noteq> PosInf
        \<and> (\<forall>b. viz_bound (map toNumber (map fst eq)) = Fin b \<longrightarrow> b < 2 ^ 52)) \<longrightarrow>
      (\<exists>out. componentDidUpdate toString toNumber frame bins p prev s = Some out))
   \<and> (\<forall>out. componentDidUpdate toString toNumber frame bins p prev s = Some out \<longrightarrow>
       length (filters (state_of out)) = length (filters s)
     \<and> map type (filters (state_of out)) = map type (filters s)
     \<and> map frequency (filters (state_of out)) = map frequency (filters s)
     \<and> map Q (filters (state_of out)) = map Q (filters s)
     \<and> qValues (state_of out) = qValues s
     \<and> connections (state_of out) = connections s
     \<and> (\<forall>eq prevEq idx. equalizer p = Some eq \<and> equalizer prev = Some prevEq
          \<and> entries_toString toString eq \<noteq> entries_toString toString prevEq
          \<and> idx < length eq \<and> idx < length (filters s) \<longrightarrow>
          gain (filters (state_of out) ! idx) =
            js_add (snd (eq ! idx)) (default_number (Fin 0) (preAmp p))))"
proof (intro conjI allI impI)
  assume "\<forall>eq. equalizer p = Some eq \<longrightarrow>
        viz_bound (map toNumber (map fst eq)) \<noteq> PosInf
        \<and> (\<forall>b. viz_bound (map toNumber (map fst eq)) = Fin b \<longrightarrow> b < 2 ^ 52)"
  then show "\<exists>out. componentDidUpdate toString toNumber frame bins p prev s = Some out"
    by (rule componentDidUpdate_returns)
next
  fix out
  assume out: "componentDidUpdate toString toNumber frame bins p prev s = Some out"
  from componentDidUpdate_steps [OF out] obtain s6 where
    c: "same_chain s s6" and o: "out = updateEqualizer toString p prev s6"
    by blast
  have fr: "filters s6 = filters s" "qValues s6 = qValues s" "connections s6 = connections s"
    using c by (simp_all add: same_chain_def)
  note u = updateEqualizer_frame [of toString p prev s6]
  show "length (filters (state_of out)) = length (filters s)" using u by (simp add: o fr)
  show "map type (filters (state_of out)) = map type (filters s)" using u by (simp add: o fr)
  show "map frequency (filters (state_of out)) = map frequency (filters s)"
    using u by (simp add: o fr)
  show "map Q (filters (state_of out)) = map Q (filters s)" using u by (simp add: o fr)
  show "qValues (state_of out) = qValues s" using u by (simp add: o fr)
  show "connections (state_of out) = connections s" using u by (simp add: o fr)
  fix eq prevEq idx
  assume h: "equalizer p = Some eq \<and> equalizer prev = Some prevEq
          \<and> entries_toString toString eq \<noteq> entries_toString toString prevEq
          \<and> idx < length eq \<and> idx < length (filters s)"
  then have "shouldUpdateEqualizer toString p prev"
    by (simp add: shouldUpdateEqualizer_def)
  from updateEqualizer_gains [OF this, of idx s6] h fr
  show "gain (filters (state_of out) ! idx) =
            js_add (snd (eq ! idx)) (default_number (Fin 0) (preAmp p))"
    by (simp add: o new_values_def)
qed

theorem componentDidUpdate_never_rebuilds_witness:
  "componentDidUpdate toString_integer Number_digits 1 []
        (two_bands\<lparr>equalizer := Some [(''60'', Fin 2), (''400'', Fin 4)]\<rparr>) two_bands
        mounted_two_bands =
      Some (Returned (mounted_two_bands
        \<lparr>filters := [\<lparr>type = lowshelf, frequency = Fin 60, gain = Fin 2, Q = Fin 1\<rparr>,
                     \<lparr>type = highshelf, frequency = Fin 100, gain = Fin 4, Q = Fin 1\<rparr>],
         effects := effects mounted_two_bands @ [SetFilterGain 0 (Fin 2), SetFilterGain 1 (Fin 4)]\<rparr>))
   \<and> map frequency (filters mounted_two_bands) = [Fin 60, Fin 100]
   \<and> map type (filters mounted_two_bands) = [lowshelf, highshelf]
   \<and> connections (mounted_two_bands
        \<lparr>filters := [\<lparr>type = lowshelf, frequency = Fin 60, gain = Fin 2, Q = Fin 1\<rparr>,
                     \<lparr>type = highshelf, frequency = Fin 100, gain = Fin 4, Q = Fin 1\<rparr>],
         effects := effects mounted_two_bands @ [SetFilterGain 0 (Fin 2), SetFilterGain 1 (Fin 4)]\<rparr>)
       = connections mounted_two_bands"
proof -
  let ?p = "two_bands\<lparr>equalizer := Some [(''60'', Fin 2), (''400'', Fin 4)]\<rparr>"
  let ?s = "mounted_two_bands
        \<lparr>filters := [\<lparr>type = lowshelf, frequency = Fin 60, gain = Fin 2, Q = Fin 1\<rparr>,
                     \<lparr>type = highshelf, frequency = Fin 100, gain = Fin 4, Q = Fin 1\<rparr>],
         effects := effects mounted_two_bands @ [SetFilterGain 0 (Fin 2), SetFilterGain 1 (Fin 4)]\<rparr>"
  have h: "componentDidUpdate toString_integer Number_digits 1 [] ?p two_bands mounted_two_bands
      = Some (Returned ?s)"
    by (simp add: componentDidUpdate_def Let_def updatePosition_def shouldUpdatePosition_def
      two_bands_def strict_eq_def default_number_def updateEqualizer_def
      shouldUpdateEqualizer_def entries_toString_def toString_integer_examples
      mounted_two_bands_state)
  note t = componentDidUpdate_never_rebuilds [of ?p Number_digits toString_integer 1 "[]"
      two_bands mounted_two_bands, THEN conjunct2, rule_format, OF h]
  from t have "map frequency (filters ?s) = map frequency (filters mounted_two_bands)"
    and "map type (filters ?s) = map type (filters mounted_two_bands)"
    and "connections ?s = connections mounted_two_bands"
    by simp_all
  then show ?thesis using h by simp
qed

text \<open>
  The same properties twice in a row. Nothing is done for the volume, the position, the
  play status, the visualization and the equalizer; the pan is set again when \<open>stereoPan\<close>
  is not given, because the rule compares the defaulted new value 0 with the previous
  value \<open>undefined\<close>.
\<close>

lemma strict_eq_same: "strict_eq v v = (v \<noteq> Some NaN)"
  by (cases v) (simp_all add: strict_eq_def)

lemma shouldUpdatePosition_same: "\<not> shouldUpdatePosition p p"
proof (cases "position p")
  case None
  then show ?thesis by (simp add: shouldUpdatePosition_def)
next
  case (Some pos)
  then show ?thesis
    by (cases pos) (simp_all add: shouldUpdatePosition_def default_number_def js_gt_def js_sub_def)
qed

lemma componentDidUpdate_same_props:
  assumes "volume p \<noteq> Some NaN" and "preAmp p \<noteq> Some NaN" and "stereoPan p \<noteq> Some NaN"
  shows "componentDidUpdate toString N frame bins p p s =
     Some (Returned (if stereoPan p = None then emit [SetPanValue (Fin 0)] s else s))"
proof -
  have eq: "\<not> shouldUpdateEqualizer toString p p"
    using assms(2) by (simp add: shouldUpdateEqualizer_def strict_eq_same split: option.splits)
  have pan: "strict_eq (Some (default_number (Fin 0) (stereoPan p))) (stereoPan p) = (stereoPan p \<noteq> None)"
    using assms(3) by (cases "stereoPan p") (simp_all add: strict_eq_def default_number_def)
  show ?thesis
    using assms(1) eq pan
    by (auto simp add: componentDidUpdate_def Let_def strict_eq_same updatePosition_def
        shouldUpdatePosition_same updateEqualizer_def setStereoPan_def)
qed

text \<open>
  Claim C8. Applying the same configuration twice in a row should do nothing on the second
  application. With \<open>stereoPan\<close> left out of the configuration the second application sets
  the pan (to 0) again; it does nothing else.
\<close>

theorem componentDidUpdate_same_props_sets_pan:
  "componentDidUpdate toString_integer Number_digits 1 []
      (two_bands\<lparr>stereoPan := None\<rparr>) (two_bands\<lparr>stereoPan := None\<rparr>) mounted_two_bands
     = Some (Returned (emit [SetPanValue (Fin 0)] mounted_two_bands))"
  using componentDidUpdate_same_props [of "two_bands\<lparr>stereoPan := None\<rparr>"
      toString_integer Number_digits 1 "[]" mounted_two_bands]
  by (simp add: two_bands_def)

end
